theory Spec2Isabelle
  imports Complex_Main "HOL-Library.AList" "HOL-Library.Sublist"
begin

section \<open>Scan objects (artiq/language/scan.py)\<close>

text \<open>
  A scan object is a one-dimensional sweep of a numerical range. Numbers are exact
  rationals (\<^typ>\<open>rat\<close>), counts are Python integers (\<^typ>\<open>int\<close>, negative values
  included: the constructors check nothing). The values a description dictionary holds
  are tagged, since a Python dictionary is untyped; the dictionary is the list of its
  items in insertion order, keys distinct.
\<close>

datatype error = KeyError | TypeError | AttributeError | ValueError | NameError | IllTyped



datatype ScanObject =
    NoScan (val: rat) (repetitions: int)
  | LinearScan (start: rat) (stop: rat) (npoints: int)
  | RandomScan (start: rat) (stop: rat) (npoints: int) (seed: "int option")
      (sequence: "rat list")
  | ExplicitScan (sequence: "rat list")

text \<open>Python's \<open>range(n)\<close>: \<open>0, 1, ..., n - 1\<close>, empty when \<open>n \<le> 0\<close>.\<close>

definition range_py :: "int \<Rightarrow> int list" where
  "range_py n = map int [0..<nat n]"

text \<open>\<open>NoScan._gen\<close>: the value, once per repetition.\<close>

definition NoScan_gen :: "rat \<Rightarrow> int \<Rightarrow> rat list" where
  "NoScan_gen v r = map (\<lambda>i. v) (range_py r)"

text \<open>
  \<open>LinearScan._gen\<close>: nothing for \<open>npoints == 0\<close>, the start alone for
  \<open>npoints == 1\<close>, and otherwise \<open>i*dx + start\<close> for \<open>i\<close> in \<open>range(npoints)\<close>
  with \<open>dx = (stop - start)/(npoints - 1)\<close> (true division; the divisor is not zero
  in that branch).
\<close>

definition LinearScan_gen :: "rat \<Rightarrow> rat \<Rightarrow> int \<Rightarrow> rat list" where
  "LinearScan_gen a b n =
     (if n = 0 then []
      else if n = 1 then [a]
      else (let dx = (b - a) / (of_int n - 1)
            in map (\<lambda>i. of_int i * dx + a) (range_py n)))"

text \<open>\<open>__iter__\<close> of the four classes; the two with a stored sequence iterate it.\<close>

fun iter :: "ScanObject \<Rightarrow> rat list" where
  "iter (NoScan v r) = NoScan_gen v r"
| "iter (LinearScan a b n) = LinearScan_gen a b n"
| "iter (RandomScan a b n s xs) = xs"
| "iter (ExplicitScan xs) = xs"

text \<open>\<open>__len__\<close>, the value the method returns.\<close>

fun len :: "ScanObject \<Rightarrow> int" where
  "len (NoScan v r) = r"
| "len (LinearScan a b n) = n"
| "len (RandomScan a b n s xs) = n"
| "len (ExplicitScan xs) = int (length xs)"

text \<open>
  \<open>list(s)\<close> and \<open>tuple(s)\<close> of a scan object: Python asks the object for its length
  before it iterates, and a negative \<open>__len__\<close> is a \<open>ValueError\<close>.
\<close>

definition list_py :: "ScanObject \<Rightarrow> error + rat list" where
  "list_py s = (if len s < 0 then Inl ValueError else Inr (iter s))"

definition bind :: "error + 'a \<Rightarrow> ('a \<Rightarrow> error + 'b) \<Rightarrow> error + 'b" where
  "bind m f = (case m of Inl e \<Rightarrow> Inl e | Inr x \<Rightarrow> f x)"

















text \<open>
  \<open>MultiScanManager\<close>. \<open>itertools.product\<close> makes a tuple of every scan first (so a
  scan of negative length raises), then yields the tuples of values, the first scan
  outermost; each tuple is zipped with the names into a dictionary (a later entry
  under the same name replaces the earlier one, in place) and becomes the keyword
  arguments of a \<open>ScanPoint\<close>.
\<close>

record MultiScanManager =
  names :: "string list"
  scan_objects :: "ScanObject list"

definition MultiScanManager_init :: "(string \<times> ScanObject) list \<Rightarrow> MultiScanManager" where
  "MultiScanManager_init args = \<lparr>names = map fst args, scan_objects = map snd args\<rparr>"

fun itertools_product :: "'a list list \<Rightarrow> 'a list list" where
  "itertools_product [] = [[]]"
| "itertools_product (xs # xss) =
     concat (map (\<lambda>x. map (\<lambda>t. x # t) (itertools_product xss)) xs)"

definition dict_of_pairs :: "(string \<times> rat) list \<Rightarrow> (string \<times> rat) list" where
  "dict_of_pairs kvs = foldl (\<lambda>d (k, v). AList.update k v d) [] kvs"

text \<open>
  A \<open>ScanPoint\<close> is its attribute dictionary: the set \<open>attr\<close> and one attribute per
  keyword. The keyword \<open>self\<close> collides with the first parameter of \<open>__init__\<close>
  (\<open>TypeError\<close> at the call). \<open>setattr\<close> refuses a number for \<open>__class__\<close> and
  \<open>__dict__\<close> (\<open>TypeError\<close>) and \<open>__weakref__\<close> is not writable (\<open>AttributeError\<close>).
  \<open>setattr(self, k, v)\<close> comes first and \<open>self.attr.add(k)\<close> second, so the keyword
  \<open>attr\<close> replaces the set by a number, which has no \<open>add\<close>.
\<close>

datatype attrval = AttrSet "string set" | AttrVal rat

type_synonym ScanPoint = "string \<rightharpoonup> attrval"

definition setattr :: "ScanPoint \<Rightarrow> string \<Rightarrow> rat \<Rightarrow> error + ScanPoint" where
  "setattr obj k v =
     (if k = ''__class__'' \<or> k = ''__dict__'' then Inl TypeError
      else if k = ''__weakref__'' then Inl AttributeError
      else Inr (obj(k \<mapsto> AttrVal v)))"

fun ScanPoint_setattrs :: "(string \<times> rat) list \<Rightarrow> ScanPoint \<Rightarrow> error + ScanPoint" where
  "ScanPoint_setattrs [] obj = Inr obj"
| "ScanPoint_setattrs ((k, v) # kvs) obj =
     (case setattr obj k v of
        Inl e \<Rightarrow> Inl e
      | Inr obj' \<Rightarrow>
          (case obj' ''attr'' of
             Some (AttrSet A) \<Rightarrow>
               ScanPoint_setattrs kvs (obj'(''attr'' \<mapsto> AttrSet (insert k A)))
           | _ \<Rightarrow> Inl AttributeError))"

definition ScanPoint_init :: "(string \<times> rat) list \<Rightarrow> error + ScanPoint" where
  "ScanPoint_init kwargs =
     (if ''self'' \<in> set (map fst kwargs) then Inl TypeError
      else ScanPoint_setattrs kwargs [''attr'' \<mapsto> AttrSet {}])"

text \<open>One full iteration of \<open>_gen\<close>: the points in order, or the first exception.\<close>

fun collect :: "(error + 'a) list \<Rightarrow> error + 'a list" where
  "collect [] = Inr []"
| "collect (m # ms) = bind m (\<lambda>x. bind (collect ms) (\<lambda>xs. Inr (x # xs)))"

definition MultiScanManager_gen :: "MultiScanManager \<Rightarrow> error + ScanPoint list" where
  "MultiScanManager_gen m =
     bind (collect (map list_py (scan_objects m))) (\<lambda>pools.
       collect (map (\<lambda>values. ScanPoint_init (dict_of_pairs (zip (names m) values)))
         (itertools_product pools)))"

text \<open>
  The attribute dictionary of the \<open>ScanPoint\<close> whose keywords are the names \<open>ns\<close>
  bound to the values \<open>vs\<close>, written in closed form for the statements below.
\<close>

definition point :: "string list \<Rightarrow> rat list \<Rightarrow> ScanPoint" where
  "point ns vs = (map_of (zip ns (map AttrVal vs)))(''attr'' \<mapsto> AttrSet (set ns))"

section \<open>DRTIO core (artiq/gateware/drtio/core.py)\<close>

text \<open>
  The two classes of \<open>core.py\<close> build Migen modules: what a constructor leaves is a
  description of hardware (submodules, combinatorial statements, clock domains), and
  that description is the value the model computes.

  A signal is either one that a module outside these sources owns (its name and its
  width) or the signal \<open>Signal.like(s, related=s)\<close> makes: a new signal of the width of
  \<open>s\<close>, different from \<open>s\<close>. (Two signals made like the same signal are two objects
  in Python and one value here; the widths, the order and the slices that the
  statements below are about do not depend on it.)
\<close>

datatype signal = Signal string nat | Like signal

fun len_signal :: "signal \<Rightarrow> nat" where
  "len_signal (Signal n w) = w"
| "len_signal (Like s) = len_signal s"

text \<open>
  Expressions and statements of a module: \<open>Attr obj a\<close> is the attribute \<open>a\<close> of the
  object the source calls \<open>obj\<close> (\<open>self.rt_packet.reset\<close>, \<open>eb.din\<close>,
  \<open>self.cd_rio.clk\<close>), and \<open>Assign l r\<close> is \<open>l.eq(r)\<close>.
\<close>

datatype expr = Sig signal | Cat "expr list" | ClockSignal string | Attr string string

datatype stmt = Assign expr expr

text \<open>
  The link layer's signals that \<open>core.py\<close> names. \<open>link_signals\<close> is also the shape of
  the namespace \<open>link_layer_sync\<close>; a \<open>LinkLayer\<close> has \<open>rx_ready\<close> besides. A
  transceiver is used through \<open>encoder\<close>, \<open>decoders\<close> and \<open>rx_ready\<close> only.
\<close>

record link_signals =
  tx_aux_frame :: signal
  tx_aux_data :: signal
  tx_aux_ack :: signal
  tx_rt_frame :: signal
  tx_rt_data :: signal
  rx_aux_stb :: signal
  rx_aux_frame :: signal
  rx_aux_frame_perm :: signal
  rx_aux_data :: signal
  rx_rt_frame :: signal
  rx_rt_frame_perm :: signal
  rx_rt_data :: signal

record LinkLayer = link_signals +
  rx_ready :: signal

record ('e, 'd) transceiver =
  encoder :: 'e
  decoders :: 'd
  rx_ready :: signal

text \<open>
  Modules. \<open>ElasticBuffer(width, depth, idomain, odomain)\<close> is Migen's; the other
  constructors stand for the classes of \<open>artiq.gateware.drtio\<close> that \<open>core.py\<close>
  instantiates, applied to the arguments it passes them. \<open>RXSynchronizer\<close> refers to the
  object bound to \<open>rx_synchronizer\<close>, which the constructor goes on changing after it has
  added it to its submodules. The type \<open>'c\<close> is that of the argument \<open>channels\<close>.
\<close>

datatype ElasticBuffer =
  ElasticBuffer (eb_width: nat) (eb_depth: nat) (idomain: string) (odomain: string)

text \<open>
  The constructor of Migen's \<open>ElasticBuffer\<close> makes its data signals of the given width,
  and Migen refuses a signal whose width is not strictly positive (\<open>ValueError\<close>).
\<close>

definition ElasticBuffer_init :: "nat \<Rightarrow> nat \<Rightarrow> string \<Rightarrow> string \<Rightarrow> error + ElasticBuffer" where
  "ElasticBuffer_init width depth idom odom =
     (if width = 0 then Inl ValueError else Inr (ElasticBuffer width depth idom odom))"

datatype 'c component =
    RXSynchronizer
  | LinkLayerModule LinkLayer
  | LinkLayerStats link_signals string
  | RTPacketSatellite link_signals
  | ClockDomainsRenamer string "'c component"
  | IOS "'c component" 'c int int
  | AuxController LinkLayer
  | RTPacketMaster LinkLayer
  | RTController "'c component" int int
  | RTManager "'c component"

text \<open>
  What the classes inherit from Migen's \<open>Module\<close>: the submodules (\<open>None\<close> for one
  added with \<open>+=\<close>, the attribute name for one added as \<open>self.submodules.name\<close>), the
  combinatorial statements and the clock domains.
\<close>

record 'm Module =
  submodules :: "(string option \<times> 'm) list"
  comb :: "stmt list"
  clock_domains :: "string list"

record GenericRXSynchronizer = "ElasticBuffer Module" +
  signals :: "(signal \<times> signal) list"

definition GenericRXSynchronizer_init :: "GenericRXSynchronizer" where
  "GenericRXSynchronizer_init =
     \<lparr>submodules = [], comb = [], clock_domains = [], signals = []\<rparr>"

text \<open>\<open>GenericRXSynchronizer.resync\<close>: a new signal like the given one, and the pair is
  appended to \<open>self.signals\<close>.\<close>

definition resync :: "signal \<Rightarrow> GenericRXSynchronizer \<Rightarrow> signal \<times> GenericRXSynchronizer" where
  "resync sg self =
     (let synchronized = Like sg
      in (synchronized, self\<lparr>signals := signals self @ [(sg, synchronized)]\<rparr>))"

text \<open>
  \<open>GenericRXSynchronizer.do_finalize\<close>: one elastic buffer over the sum of the widths of
  the registered signals, its input the \<open>Cat\<close> of the originals and the \<open>Cat\<close> of the
  synchronized signals assigned from its output. When the buffer's constructor raises
  (nothing registered), nothing is added.
\<close>

definition do_finalize :: "GenericRXSynchronizer \<Rightarrow> error + GenericRXSynchronizer" where
  "do_finalize self =
     bind (ElasticBuffer_init (sum_list (map (\<lambda>s. len_signal (fst s)) (signals self))) 4
             ''rtio_rx'' ''rtio'') (\<lambda>eb.
       Inr (self\<lparr>submodules := submodules self @ [(None, eb)],
              comb := comb self @
                [Assign (Attr ''eb'' ''din'') (Cat (map (\<lambda>s. Sig (fst s)) (signals self))),
                 Assign (Cat (map (\<lambda>s. Sig (snd s)) (signals self))) (Attr ''eb'' ''dout'')]\<rparr>))"

text \<open>
  \<open>ClockDomain()\<close> with no name: Migen names the domain after the attribute it is
  stored under, without the prefix \<open>cd_\<close>.
\<close>

definition ClockDomain :: "string \<Rightarrow> string" where
  "ClockDomain attr = (if take 3 attr = ''cd_'' then drop 3 attr else attr)"

text \<open>
  The argument \<open>rx_synchronizer\<close> is any object with a \<open>resync\<close> method: a
  \<open>GenericRXSynchronizer\<close>, or an object of another class, whose state has the type
  \<open>'s\<close> and whose method \<open>m\<close> is a parameter. \<open>resync_method\<close> is the call
  \<open>rx_synchronizer.resync(sg)\<close>.
\<close>

datatype 's rx_synchronizer = Generic "GenericRXSynchronizer" | Other 's

fun resync_method ::
  "(signal \<Rightarrow> 's \<Rightarrow> signal \<times> 's) \<Rightarrow> signal \<Rightarrow> 's rx_synchronizer
     \<Rightarrow> signal \<times> 's rx_synchronizer" where
  "resync_method m sg (Generic g) = (case resync sg g of (out, g') \<Rightarrow> (out, Generic g'))"
| "resync_method m sg (Other c) = (case m sg c of (out, c') \<Rightarrow> (out, Other c'))"

text \<open>
  \<open>DRTIOSatellite.__init__\<close>. \<open>new_LinkLayer\<close> is the constructor
  \<open>link_layer.LinkLayer\<close>, which is not part of these sources; \<open>None\<close> for a width
  stands for the default of the parameter. The record keeps, besides the module's
  parts, the objects bound to the local names \<open>rx_synchronizer\<close> (in its final state)
  and \<open>link_layer_sync\<close>.
\<close>

record ('c, 's) DRTIOSatellite = "'c component Module" +
  rx_synchronizer :: "'s rx_synchronizer"
  link_layer_sync :: link_signals

definition DRTIOSatellite ::
  "('e \<Rightarrow> 'd \<Rightarrow> LinkLayer) \<Rightarrow> (signal \<Rightarrow> 's \<Rightarrow> signal \<times> 's) \<Rightarrow>
   ('e, 'd) transceiver \<Rightarrow> 'c \<Rightarrow> 's rx_synchronizer option \<Rightarrow> int option \<Rightarrow> int option
     \<Rightarrow> ('c, 's) DRTIOSatellite" where
  "DRTIOSatellite new_LinkLayer m tr channels rx_sync fine_ts_width full_ts_width =
     (let fine = (case fine_ts_width of None \<Rightarrow> 3 | Some w \<Rightarrow> w);
          full = (case full_ts_width of None \<Rightarrow> 63 | Some w \<Rightarrow> w);
          (s0, subs0) = (case rx_sync of
             None \<Rightarrow> (Generic GenericRXSynchronizer_init, [(None, RXSynchronizer)])
           | Some s \<Rightarrow> (s, []));
          ll = new_LinkLayer (encoder tr) (decoders tr);
          (o1, s1) = resync_method m (rx_aux_stb ll) s0;
          (o2, s2) = resync_method m (rx_aux_frame ll) s1;
          (o3, s3) = resync_method m (rx_aux_frame_perm ll) s2;
          (o4, s4) = resync_method m (rx_aux_data ll) s3;
          (o5, s5) = resync_method m (rx_rt_frame ll) s4;
          (o6, s6) = resync_method m (rx_rt_frame_perm ll) s5;
          (o7, s7) = resync_method m (rx_rt_data ll) s6;
          ns = \<lparr>tx_aux_frame = tx_aux_frame ll, tx_aux_data = tx_aux_data ll,
                tx_aux_ack = tx_aux_ack ll, tx_rt_frame = tx_rt_frame ll,
                tx_rt_data = tx_rt_data ll,
                rx_aux_stb = o1, rx_aux_frame = o2, rx_aux_frame_perm = o3, rx_aux_data = o4,
                rx_rt_frame = o5, rx_rt_frame_perm = o6, rx_rt_data = o7\<rparr>;
          rt_packet = ClockDomainsRenamer ''rtio'' (RTPacketSatellite ns)
      in \<lparr>submodules = subs0 @
             [(Some ''link_layer'', LinkLayerModule ll),
              (Some ''link_stats'', LinkLayerStats ns ''rtio''),
              (Some ''rt_packet'', rt_packet),
              (Some ''ios'', IOS rt_packet channels fine full),
              (Some ''aux_controller'', AuxController ll)],
           comb =
             [Assign (Sig (LinkLayer.rx_ready ll)) (Sig (transceiver.rx_ready tr)),
              Assign (Attr ''cd_rio'' ''clk'') (ClockSignal ''rtio''),
              Assign (Attr ''cd_rio'' ''rst'') (Attr ''rt_packet'' ''reset''),
              Assign (Attr ''cd_rio_phy'' ''clk'') (ClockSignal ''rtio''),
              Assign (Attr ''cd_rio_phy'' ''rst'') (Attr ''rt_packet'' ''reset_phy'')],
           clock_domains = [ClockDomain ''cd_rio'', ClockDomain ''cd_rio_phy''],
           rx_synchronizer = s7,
           link_layer_sync = ns\<rparr>)"

text \<open>\<open>DRTIOMaster.__init__\<close>.\<close>

record 'c DRTIOMaster = "'c component Module" +
  cri :: expr

definition DRTIOMaster ::
  "('e \<Rightarrow> 'd \<Rightarrow> LinkLayer) \<Rightarrow> ('e, 'd) transceiver \<Rightarrow> int option \<Rightarrow> int option
     \<Rightarrow> 'c DRTIOMaster" where
  "DRTIOMaster new_LinkLayer tr channel_count fine_ts_width =
     (let count = (case channel_count of None \<Rightarrow> 1024 | Some n \<Rightarrow> n);
          fine = (case fine_ts_width of None \<Rightarrow> 3 | Some w \<Rightarrow> w);
          ll = new_LinkLayer (encoder tr) (decoders tr);
          rt_packet = RTPacketMaster ll
      in \<lparr>submodules =
             [(Some ''link_layer'', LinkLayerModule ll),
              (Some ''link_stats'', LinkLayerStats (link_signals.truncate ll) ''rtio_rx''),
              (Some ''rt_packet'', rt_packet),
              (Some ''rt_controller'', RTController rt_packet count fine),
              (Some ''rt_manager'', RTManager rt_packet),
              (Some ''aux_controller'', AuxController ll)],
           comb = [Assign (Sig (LinkLayer.rx_ready ll)) (Sig (transceiver.rx_ready tr))],
           clock_domains = [],
           cri = Attr ''rt_controller'' ''cri''\<rparr>)"


text \<open>
  For the statements below: the receive-side and the transmit-side signals in the order
  of the source; a method called on each element of a list in order, the state of its
  object threaded through the calls (the results and the final state); and the
  right-hand sides of the statements that assign a target, the targets of the
  statements that assign from a source.
\<close>

definition rx_signals :: "'a link_signals_scheme \<Rightarrow> signal list" where
  "rx_signals l = [rx_aux_stb l, rx_aux_frame l, rx_aux_frame_perm l, rx_aux_data l,
                   rx_rt_frame l, rx_rt_frame_perm l, rx_rt_data l]"

definition tx_signals :: "'a link_signals_scheme \<Rightarrow> signal list" where
  "tx_signals l = [tx_aux_frame l, tx_aux_data l, tx_aux_ack l, tx_rt_frame l, tx_rt_data l]"

fun calls :: "('a \<Rightarrow> 's \<Rightarrow> 'b \<times> 's) \<Rightarrow> 'a list \<Rightarrow> 's \<Rightarrow> 'b list \<times> 's" where
  "calls f [] s = ([], s)"
| "calls f (x # xs) s =
     (case f x s of (y, s') \<Rightarrow> (case calls f xs s' of (ys, s'') \<Rightarrow> (y # ys, s'')))"

definition drivers :: "expr \<Rightarrow> stmt list \<Rightarrow> expr list" where
  "drivers target stmts =
     map (\<lambda>s. case s of Assign l r \<Rightarrow> r) (filter (\<lambda>s. case s of Assign l r \<Rightarrow> l = target) stmts)"

definition targets :: "expr \<Rightarrow> stmt list \<Rightarrow> expr list" where
  "targets source stmts =
     map (\<lambda>s. case s of Assign l r \<Rightarrow> l) (filter (\<lambda>s. case s of Assign l r \<Rightarrow> r = source) stmts)"

text \<open>
  Values of signals are bit lists, least significant bit first; a signal of width \<open>n\<close>
  holds \<open>n\<close> bits (\<open>fit\<close> cuts or zero-extends). Migen's \<open>Cat\<close> lists its operands from
  the least significant one, so its value is the concatenation of theirs, and an
  assignment to a \<open>Cat\<close> hands each operand the slice at its position: \<open>assign\<close> lists
  the signals an assignment drives with the values they get. The attributes of other
  objects and the clock signals carry no value here.
\<close>

definition fit :: "nat \<Rightarrow> bool list \<Rightarrow> bool list" where
  "fit n bits = take n (bits @ replicate n False)"

fun len_expr :: "expr \<Rightarrow> nat" where
  "len_expr (Sig s) = len_signal s"
| "len_expr (Cat es) = sum_list (map len_expr es)"
| "len_expr (ClockSignal d) = 0"
| "len_expr (Attr obj a) = 0"

fun eval :: "(signal \<Rightarrow> bool list) \<Rightarrow> expr \<Rightarrow> bool list" where
  "eval env (Sig s) = fit (len_signal s) (env s)"
| "eval env (Cat es) = concat (map (eval env) es)"
| "eval env (ClockSignal d) = []"
| "eval env (Attr obj a) = []"

fun assign :: "expr \<Rightarrow> bool list \<Rightarrow> (signal \<times> bool list) list"
  and assign_list :: "expr list \<Rightarrow> bool list \<Rightarrow> (signal \<times> bool list) list" where
  "assign (Sig s) bits = [(s, fit (len_signal s) bits)]"
| "assign (Cat es) bits = assign_list es bits"
| "assign (ClockSignal d) bits = []"
| "assign (Attr obj a) bits = []"
| "assign_list [] bits = []"
| "assign_list (e # es) bits =
     assign e (take (len_expr e) bits) @ assign_list es (drop (len_expr e) bits)"

text \<open>
  Modelled from the spec: the behaviour of the elastic buffer (Migen's
  \<open>ElasticBuffer\<close>, which \<open>do_finalize\<close> instantiates and whose code is not part of these
  sources). The specification describes it as a bounded queue of \<open>depth\<close> slots of a
  fixed width with a single producer, clocked by the write domain, and a single
  consumer, clocked by the read domain: a word written is readable later, words are
  read in the order written, and a write into a full buffer is an overflow, a
  configuration error that is prevented by construction and not handled. So a write
  tick is refused (\<open>None\<close>) when the buffer is full, and a read tick when it is empty.
\<close>

definition eb_write :: "ElasticBuffer \<Rightarrow> bool list \<Rightarrow> bool list list \<Rightarrow> bool list list option" where
  "eb_write eb w q =
     (if length q < eb_depth eb then Some (q @ [fit (eb_width eb) w]) else None)"

definition eb_read :: "bool list list \<Rightarrow> (bool list \<times> bool list list) option" where
  "eb_read q = (case q of [] \<Rightarrow> None | w # q' \<Rightarrow> Some (w, q'))"

text \<open>
  The bridge at work: a finalized synchronizer \<open>g\<close> with the buffer of its submodules.
  At a tick of the write clock the buffer's input, as the statement for \<open>eb.din\<close> gives
  it from the values \<open>env\<close> of the signals, is written; at a tick of the read clock the
  oldest word is read and assigned as the statement from \<open>eb.dout\<close> says. The state
  keeps the words in the buffer (oldest first), the values the registered signals had
  at the write ticks and the values the synchronized signals received at the read
  ticks, both in registration order.
\<close>

record bridge =
  fifo :: "bool list list"
  written :: "bool list list list"
  received :: "bool list list list"

definition bridge_init :: bridge where
  "bridge_init = \<lparr>fifo = [], written = [], received = []\<rparr>"

datatype clock_event = WriteTick "signal \<Rightarrow> bool list" | ReadTick

fun bridge_step :: "GenericRXSynchronizer \<Rightarrow> clock_event \<Rightarrow> bridge \<Rightarrow> bridge option" where
  "bridge_step g (WriteTick env) st =
     (case (map snd (submodules g), drivers (Attr ''eb'' ''din'') (comb g)) of
        ([eb], [din]) \<Rightarrow>
          (case eb_write eb (eval env din) (fifo st) of
             None \<Rightarrow> None
           | Some q \<Rightarrow>
               Some (st\<lparr>fifo := q,
                        written := written st @
                          [map (\<lambda>s. eval env (Sig (fst s))) (signals g)]\<rparr>))
      | _ \<Rightarrow> None)"
| "bridge_step g ReadTick st =
     (case targets (Attr ''eb'' ''dout'') (comb g) of
        [tgt] \<Rightarrow>
          (case eb_read (fifo st) of
             None \<Rightarrow> None
           | Some (w, q) \<Rightarrow>
               Some (st\<lparr>fifo := q, received := received st @ [map snd (assign tgt w)]\<rparr>))
      | _ \<Rightarrow> None)"

fun bridge_run :: "GenericRXSynchronizer \<Rightarrow> clock_event list \<Rightarrow> bridge \<Rightarrow> bridge option" where
  "bridge_run g [] st = Some st"
| "bridge_run g (e # es) st =
     (case bridge_step g e st of None \<Rightarrow> None | Some st' \<Rightarrow> bridge_run g es st')"

fun write_envs :: "clock_event list \<Rightarrow> (signal \<Rightarrow> bool list) list" where
  "write_envs [] = []"
| "write_envs (WriteTick env # es) = env # write_envs es"
| "write_envs (ReadTick # es) = write_envs es"

section \<open>The RT command stream\<close>

text \<open>
  Modelled from the spec: the RT packet engines and the link layer
  (\<open>rt_packet_master\<close>, \<open>rt_packet_satellite\<close> and \<open>link_layer\<close> of
  \<open>artiq.gateware.drtio\<close>), which \<open>core.py\<close> only instantiates. The specification gives
  the commands (write I/O event with channel, timestamp and data; read request; echo
  request; reset; reset-phy) and the link as a single ordered stream: the master
  issues one command at a time, a frame does not begin before the previous one on its
  sub-channel has closed, the bridge keeps the order, a corrupted frame is dropped
  silently and counted, and the loss of the link discards the frames in flight.
  A state holds the commands issued, the frames in flight (oldest first), the commands
  the satellite has observed and the count of corrupted frames; \<open>rt_step\<close> is one event
  (\<open>None\<close> when there is no frame to deliver or to drop) and \<open>rt_run\<close> a sequence of
  events.
\<close>

datatype rt_command =
    Write nat int int
  | Read nat
  | EchoRequest
  | Reset
  | ResetPhy

record rt_link =
  issued :: "rt_command list"
  in_flight :: "rt_command list"
  observed :: "rt_command list"
  corrupt_frames :: nat

definition rt_link_init :: rt_link where
  "rt_link_init = \<lparr>issued = [], in_flight = [], observed = [], corrupt_frames = 0\<rparr>"

datatype rt_event = Issue rt_command | Deliver | Corrupt | LinkDown

fun rt_step :: "rt_event \<Rightarrow> rt_link \<Rightarrow> rt_link option" where
  "rt_step (Issue c) s = Some (s\<lparr>issued := issued s @ [c], in_flight := in_flight s @ [c]\<rparr>)"
| "rt_step Deliver s =
     (case in_flight s of
        [] \<Rightarrow> None
      | c # rest \<Rightarrow> Some (s\<lparr>in_flight := rest, observed := observed s @ [c]\<rparr>))"
| "rt_step Corrupt s =
     (case in_flight s of
        [] \<Rightarrow> None
      | c # rest \<Rightarrow> Some (s\<lparr>in_flight := rest, corrupt_frames := Suc (corrupt_frames s)\<rparr>))"
| "rt_step LinkDown s = Some (s\<lparr>in_flight := []\<rparr>)"

fun rt_run :: "rt_event list \<Rightarrow> rt_link \<Rightarrow> rt_link option" where
  "rt_run [] s = Some s"
| "rt_run (e # es) s = (case rt_step e s of None \<Rightarrow> None | Some s' \<Rightarrow> rt_run es s')"

text \<open>Modelled from the spec: the commands a sequence of events issues, in order.\<close>

fun issues :: "rt_event list \<Rightarrow> rt_command list" where
  "issues [] = []"
| "issues (Issue c # es) = c # issues es"
| "issues (e # es) = issues es"

section \<open>Properties of the scan objects\<close>

lemma length_range_py: "length (range_py n) = nat n"
  by (simp add: range_py_def)

subsection \<open>LinearScan\<close>

lemma LinearScan_gen_nth:
  assumes "2 \<le> n" "i < nat n"
  shows "LinearScan_gen a b n ! i = a + of_nat i * ((b - a) / (of_int n - 1))"
  using assms by (simp add: LinearScan_gen_def range_py_def Let_def)

lemma length_LinearScan_gen: "length (LinearScan_gen a b n) = nat n"
  by (simp add: LinearScan_gen_def range_py_def Let_def)

text \<open>
  Claim C10, as amended. For every \<open>LinearScan\<close> with \<open>npoints \<ge> 0\<close>, in exact rational
  arithmetic, one full iteration yields exactly \<open>npoints\<close> values and \<open>__len__\<close> returns
  \<open>npoints\<close>: nothing for \<open>npoints = 0\<close>, the start alone for \<open>npoints = 1\<close>, and for
  \<open>npoints \<ge> 2\<close> the values \<open>start + i * (stop - start)/(npoints - 1)\<close>, consecutive ones
  \<open>(stop - start)/(npoints - 1)\<close> apart, the first equal to \<open>start\<close> and the last equal to
  \<open>stop\<close>.
\<close>

theorem LinearScan_points:
  assumes "0 \<le> n"
  shows "int (length (iter (LinearScan a b n))) = n \<and> len (LinearScan a b n) = n
    \<and> (n = 0 \<longrightarrow> iter (LinearScan a b n) = [])
    \<and> (n = 1 \<longrightarrow> iter (LinearScan a b n) = [a])
    \<and> (2 \<le> n \<longrightarrow>
          (\<forall>i < nat n. iter (LinearScan a b n) ! i = a + of_nat i * ((b - a) / (of_int n - 1)))
        \<and> (\<forall>i. Suc i < nat n \<longrightarrow>
              iter (LinearScan a b n) ! Suc i - iter (LinearScan a b n) ! i = (b - a) / (of_int n - 1))
        \<and> hd (iter (LinearScan a b n)) = a
        \<and> last (iter (LinearScan a b n)) = b)"
proof -
  have len: "int (length (iter (LinearScan a b n))) = n"
    using assms by (simp add: length_LinearScan_gen)
  have c0: "n = 0 \<longrightarrow> iter (LinearScan a b n) = []"
    by (simp add: LinearScan_gen_def)
  have c1: "n = 1 \<longrightarrow> iter (LinearScan a b n) = [a]"
    by (simp add: LinearScan_gen_def)
  have c2: "(\<forall>i < nat n. iter (LinearScan a b n) ! i = a + of_nat i * ((b - a) / (of_int n - 1)))
        \<and> (\<forall>i. Suc i < nat n \<longrightarrow>
              iter (LinearScan a b n) ! Suc i - iter (LinearScan a b n) ! i = (b - a) / (of_int n - 1))
        \<and> hd (iter (LinearScan a b n)) = a
        \<and> last (iter (LinearScan a b n)) = b" if n2: "2 \<le> n"
  proof -
    have nth: "iter (LinearScan a b n) ! i = a + of_nat i * ((b - a) / (of_int n - 1))"
      if "i < nat n" for i
      using n2 that by (simp add: LinearScan_gen_nth)
    have ne: "iter (LinearScan a b n) \<noteq> []"
      using n2 length_LinearScan_gen [of a b n] by auto
    have step: "iter (LinearScan a b n) ! Suc i - iter (LinearScan a b n) ! i
        = (b - a) / (of_int n - 1)" if "Suc i < nat n" for i
    proof -
      define d where "d = (b - a) / (of_int n - 1)"
      have "i < nat n" using that by simp
      then have "iter (LinearScan a b n) ! i = a + of_nat i * d"
        using nth [of i] by (simp add: d_def)
      moreover have "iter (LinearScan a b n) ! Suc i = a + of_nat (Suc i) * d"
        using nth [of "Suc i"] that by (simp add: d_def)
      ultimately show ?thesis
        unfolding d_def [symmetric] by (simp add: algebra_simps)
    qed
    have h: "hd (iter (LinearScan a b n)) = a"
      using nth [of 0] n2 ne by (simp add: hd_conv_nth)
    have "last (iter (LinearScan a b n)) = iter (LinearScan a b n) ! (nat n - 1)"
      using ne by (simp add: last_conv_nth length_LinearScan_gen)
    also have "\<dots> = a + of_nat (nat n - 1) * ((b - a) / (of_int n - 1))"
      using n2 by (intro nth) simp
    also have "of_nat (nat n - 1) = (of_int n - 1 :: rat)"
      using n2 by (simp add: of_nat_diff)
    also have "a + (of_int n - 1) * ((b - a) / (of_int n - 1)) = b"
      using n2 by simp
    finally have l: "last (iter (LinearScan a b n)) = b" .
    show ?thesis using nth step h l by blast
  qed
  have l2: "len (LinearScan a b n) = n" by simp
  show ?thesis using len l2 c0 c1 c2 by blast
qed

theorem LinearScan_points_witness:
  "(0::int) \<le> 3 \<and> iter (LinearScan 0 1 3) = [0, 1/2, 1]
   \<and> int (length (iter (LinearScan 0 1 3))) = 3 \<and> len (LinearScan 0 1 3) = 3
   \<and> hd (iter (LinearScan 0 1 3)) = 0 \<and> last (iter (LinearScan 0 1 3)) = 1"
  using LinearScan_points [of 3 0 1]
  by (simp add: LinearScan_gen_def range_py_def eval_nat_numeral)

text \<open>
  The claim as written covers every \<open>LinearScan\<close>; the constructor accepts a negative
  \<open>npoints\<close>, for which \<open>range\<close> is empty: \<open>LinearScan(0, 1, -1)\<close> yields no value,
  not \<open>-1\<close> values.
\<close>

theorem LinearScan_negative_npoints:
  "iter (LinearScan 0 1 (-1)) = [] \<and> npoints (LinearScan 0 1 (-1)) = -1
   \<and> int (length (iter (LinearScan 0 1 (-1)))) \<noteq> npoints (LinearScan 0 1 (-1))"
  by (simp add: LinearScan_gen_def range_py_def)

subsection \<open>describe and process\<close>







subsection \<open>MultiScanManager\<close>

lemma length_itertools_product:
  "length (itertools_product xss) = prod_list (map length xss)"
  by (induction xss) (simp_all add: length_concat o_def sum_list_triv)

lemma itertools_product_length_eq:
  "t \<in> set (itertools_product xss) \<Longrightarrow> length t = length xss"
  by (induction xss arbitrary: t) auto

lemma set_itertools_product:
  "set (itertools_product xss) = {t. list_all2 (\<lambda>x xs. x \<in> set xs) t xss}"
  by (induction xss) (auto simp: list_all2_Cons2)

lemma snoc_block_Cons:
  "concat (map ((\<lambda>t. map (\<lambda>y. t @ [y]) ys) \<circ> (\<lambda>t. x # t)) ts)
     = map (\<lambda>t. x # t) (concat (map (\<lambda>t. map (\<lambda>y. t @ [y]) ys) ts))"
  by (induction ts) simp_all

lemma snoc_blocks:
  "concat (map (\<lambda>t. map (\<lambda>y. t @ [y]) ys) (concat (map (\<lambda>x. map (\<lambda>t. x # t) ts) xs)))
     = concat (map (\<lambda>x. map (\<lambda>t. x # t) (concat (map (\<lambda>t. map (\<lambda>y. t @ [y]) ys) ts))) xs)"
  by (induction xs) (simp_all add: snoc_block_Cons)

lemma itertools_product_snoc:
  "itertools_product (xss @ [ys]) =
     concat (map (\<lambda>t. map (\<lambda>y. t @ [y]) ys) (itertools_product xss))"
  by (induction xss) (simp_all add: snoc_blocks)

lemma nth_concat_uniform:
  assumes "\<forall>x \<in> set xs. length (f x) = m" "p < length xs" "q < m"
  shows "concat (map f xs) ! (p * m + q) = f (xs ! p) ! q"
  using assms
proof (induction xs arbitrary: p)
  case Nil
  then show ?case by simp
next
  case (Cons x xs)
  show ?case
  proof (cases p)
    case 0
    then show ?thesis using Cons.prems by (simp add: nth_append)
  next
    case (Suc p')
    have "concat (map f (x # xs)) ! (p * m + q) = concat (map f xs) ! (p' * m + q)"
      using Suc Cons.prems by (simp add: nth_append)
    then show ?thesis using Suc Cons.prems Cons.IH [of p'] by simp
  qed
qed

lemma itertools_product_last_fastest:
  assumes "p < length (itertools_product xss)" "q < length ys"
  shows "itertools_product (xss @ [ys]) ! (p * length ys + q)
           = itertools_product xss ! p @ [ys ! q]"
proof -
  have "concat (map (\<lambda>t. map (\<lambda>y. t @ [y]) ys) (itertools_product xss)) ! (p * length ys + q)
      = map (\<lambda>y. itertools_product xss ! p @ [y]) ys ! q"
    using assms by (intro nth_concat_uniform) simp_all
  then show ?thesis using assms by (simp add: itertools_product_snoc)
qed

lemma update_fresh: "k \<notin> fst ` set al \<Longrightarrow> AList.update k v al = al @ [(k, v)]"
  by (induction al) auto

lemma foldl_update_distinct:
  "distinct (map fst kvs) \<Longrightarrow> fst ` set d \<inter> fst ` set kvs = {} \<Longrightarrow>
   foldl (\<lambda>d (k, v). AList.update k v d) d kvs = d @ kvs"
proof (induction kvs arbitrary: d)
  case Nil
  then show ?case by simp
next
  case (Cons kv kvs)
  obtain k v where kv: "kv = (k, v)" by (cases kv)
  have fresh: "k \<notin> fst ` set d" using Cons.prems kv by auto
  have "fst ` set (d @ [(k, v)]) \<inter> fst ` set kvs = {}"
    using Cons.prems kv by (auto simp: image_Un)
  then have "foldl (\<lambda>d (k, v). AList.update k v d) (d @ [(k, v)]) kvs = (d @ [(k, v)]) @ kvs"
    using Cons.prems by (intro Cons.IH) simp_all
  then show ?case using fresh kv by (simp add: update_fresh)
qed

lemma dict_of_pairs_distinct: "distinct (map fst kvs) \<Longrightarrow> dict_of_pairs kvs = kvs"
  using foldl_update_distinct [of kvs "[]"] by (simp add: dict_of_pairs_def)

lemma ScanPoint_setattrs_ok:
  assumes "obj ''attr'' = Some (AttrSet A)"
    "fst ` set kvs \<inter> {''attr'', ''__class__'', ''__dict__'', ''__weakref__''} = {}"
    "distinct (map fst kvs)"
  shows "ScanPoint_setattrs kvs obj =
     Inr ((obj ++ map_of (map (\<lambda>(k, v). (k, AttrVal v)) kvs))
            (''attr'' \<mapsto> AttrSet (A \<union> fst ` set kvs)))"
  using assms
proof (induction kvs arbitrary: obj A)
  case Nil
  then show ?case by (simp add: fun_upd_idem)
next
  case (Cons kv kvs)
  obtain k v where kv: "kv = (k, v)" by (cases kv)
  have k: "k \<noteq> ''attr''" "k \<notin> fst ` set kvs" using Cons.prems kv by auto
  have k': "k \<noteq> ''__class__''" "k \<noteq> ''__dict__''" "k \<noteq> ''__weakref__''"
    using Cons.prems kv by auto
  let ?obj = "(obj(k \<mapsto> AttrVal v))(''attr'' \<mapsto> AttrSet (insert k A))"
  have step: "ScanPoint_setattrs (kv # kvs) obj = ScanPoint_setattrs kvs ?obj"
    using Cons.prems(1) k(1) k' kv by (simp add: setattr_def)
  have "ScanPoint_setattrs kvs ?obj =
      Inr ((?obj ++ map_of (map (\<lambda>(k, v). (k, AttrVal v)) kvs))
             (''attr'' \<mapsto> AttrSet (insert k A \<union> fst ` set kvs)))"
    using Cons.prems by (intro Cons.IH) auto
  moreover have "(?obj ++ map_of (map (\<lambda>(k, v). (k, AttrVal v)) kvs))
             (''attr'' \<mapsto> AttrSet (insert k A \<union> fst ` set kvs))
     = (obj ++ map_of (map (\<lambda>(k, v). (k, AttrVal v)) (kv # kvs)))
            (''attr'' \<mapsto> AttrSet (A \<union> fst ` set (kv # kvs)))"
  proof (rule ext)
    fix x
    have notin: "map_of (map (\<lambda>(k, v). (k, AttrVal v)) kvs) k = None"
      using k(2) by (simp add: map_of_eq_None_iff image_image split_def)
    show "((?obj ++ map_of (map (\<lambda>(k, v). (k, AttrVal v)) kvs))
             (''attr'' \<mapsto> AttrSet (insert k A \<union> fst ` set kvs))) x
     = ((obj ++ map_of (map (\<lambda>(k, v). (k, AttrVal v)) (kv # kvs)))
            (''attr'' \<mapsto> AttrSet (A \<union> fst ` set (kv # kvs)))) x"
      using notin k kv by (auto simp: map_add_def split: option.splits)
  qed
  ultimately show ?case using step by (simp only:)
qed

lemma collect_map:
  "\<forall>x \<in> set xs. f x = Inr (g x) \<Longrightarrow> collect (map f xs) = Inr (map g xs)"
  by (induction xs) (simp_all add: bind_def)


lemma ScanPoint_init_zip:
  assumes "distinct ns" "set ns \<inter> {''attr'', ''self'', ''__class__'', ''__dict__'', ''__weakref__''} = {}"
    "length vs = length ns"
  shows "ScanPoint_init (dict_of_pairs (zip ns vs)) = Inr (point ns vs)"
proof -
  have d: "distinct (map fst (zip ns vs))" using assms by simp
  have f: "fst ` set (zip ns vs) = set ns"
    using assms(3) by (metis list.set_map map_fst_zip)
  have m: "map (\<lambda>(k, v). (k, AttrVal v)) (zip ns vs) = zip ns (map AttrVal vs)"
    by (simp add: zip_map2 split_def)
  have "ScanPoint_setattrs (zip ns vs) [''attr'' \<mapsto> AttrSet {}] =
     Inr (([''attr'' \<mapsto> AttrSet {}] ++ map_of (map (\<lambda>(k, v). (k, AttrVal v)) (zip ns vs)))
            (''attr'' \<mapsto> AttrSet ({} \<union> fst ` set (zip ns vs))))"
    using assms d f by (intro ScanPoint_setattrs_ok) auto
  moreover have self: "''self'' \<notin> set (map fst (zip ns vs))"
    using assms by auto
  moreover have "([''attr'' \<mapsto> AttrSet {}] ++ map_of (zip ns (map AttrVal vs)))
            (''attr'' \<mapsto> AttrSet (set ns)) = point ns vs"
    by (rule ext) (simp add: point_def map_add_def split: option.splits)
  ultimately show ?thesis
    using d f m by (simp add: ScanPoint_init_def dict_of_pairs_distinct)
qed

lemma collect_list_py:
  "list_all (\<lambda>s. 0 \<le> len s) ss \<Longrightarrow> collect (map list_py ss) = Inr (map iter ss)"
  by (induction ss) (simp_all add: bind_def list_py_def)

lemma MultiScanManager_gen_points:
  assumes "distinct (map fst args)"
    "set (map fst args) \<inter> {''attr'', ''self'', ''__class__'', ''__dict__'', ''__weakref__''} = {}"
    "list_all (\<lambda>a. 0 \<le> len (snd a)) args"
  shows "MultiScanManager_gen (MultiScanManager_init args) =
     Inr (map (point (map fst args)) (itertools_product (map (\<lambda>a. iter (snd a)) args)))"
proof -
  have "\<forall>vs \<in> set (itertools_product (map iter (map snd args))).
      ScanPoint_init (dict_of_pairs (zip (map fst args) vs)) = Inr (point (map fst args) vs)"
  proof
    fix vs assume "vs \<in> set (itertools_product (map iter (map snd args)))"
    then have "length vs = length (map fst args)"
      using itertools_product_length_eq by fastforce
    then show "ScanPoint_init (dict_of_pairs (zip (map fst args) vs)) = Inr (point (map fst args) vs)"
      using assms(1,2) by (intro ScanPoint_init_zip)
  qed
  then have pts: "collect (map (\<lambda>values. ScanPoint_init (dict_of_pairs (zip (map fst args) values)))
         (itertools_product (map iter (map snd args))))
      = Inr (map (point (map fst args)) (itertools_product (map iter (map snd args))))"
    by (rule collect_map)
  have "list_all (\<lambda>s. 0 \<le> len s) (map snd args)"
    using assms(3) by (simp add: list_all_iff)
  then have pools: "collect (map list_py (map snd args)) = Inr (map iter (map snd args))"
    by (rule collect_list_py)
  show ?thesis
    using pools pts
    by (simp add: MultiScanManager_gen_def MultiScanManager_init_def bind_def o_def)
qed

lemma point_attr:
  assumes "distinct ns" "''attr'' \<notin> set ns" "length vs = length ns" "i < length ns"
  shows "point ns vs (ns ! i) = Some (AttrVal (vs ! i))"
proof -
  have "ns ! i \<noteq> ''attr''" using assms by (metis nth_mem)
  moreover have "map_of (zip ns (map AttrVal vs)) (ns ! i) = Some (map AttrVal vs ! i)"
    using assms by (intro map_of_zip_nth) simp_all
  ultimately show ?thesis using assms by (simp add: point_def)
qed

lemma dom_point: "length vs = length ns \<Longrightarrow> dom (point ns vs) = insert ''attr'' (set ns)"
  by (simp add: point_def)

text \<open>
  Claim C8, as amended. For a \<open>MultiScanManager\<close> built from (name, scan) pairs whose
  names are pairwise distinct, none of them \<open>attr\<close>, \<open>self\<close>, \<open>__class__\<close>, \<open>__dict__\<close> or
  \<open>__weakref__\<close>, and whose scans have a length that is not negative, one iteration
  yields one \<open>ScanPoint\<close> per tuple of \<open>itertools.product\<close> of the scans, in that order:
  as many points as the product of the scans' lengths (not their sum), the tuples being
  the Cartesian product of the scans' values with the last scan varying fastest
  (appending a scan \<open>a\<close> puts the tuple \<open>p\<close> extended by the \<open>q\<close>-th value of \<open>a\<close> at index
  \<open>p * len(a) + q\<close>). Every point has exactly the attributes \<open>attr\<close> and the registered
  names, \<open>attr\<close> being the set of names and each name bound to its scan's value in the
  tuple.
\<close>

theorem MultiScanManager_product:
  assumes "distinct (map fst args)"
    and "set (map fst args) \<inter> {''attr'', ''self'', ''__class__'', ''__dict__'', ''__weakref__''} = {}"
    and "list_all (\<lambda>a. 0 \<le> len (snd a)) args"
  shows "\<exists>ps. MultiScanManager_gen (MultiScanManager_init args) = Inr ps
     \<and> length ps = length (itertools_product (map (\<lambda>a. iter (snd a)) args))
     \<and> length ps = prod_list (map (\<lambda>a. length (iter (snd a))) args)
     \<and> (\<forall>j < length ps. dom (ps ! j) = insert ''attr'' (set (map fst args)))
     \<and> (\<forall>j < length ps. (ps ! j) ''attr'' = Some (AttrSet (set (map fst args))))
     \<and> (\<forall>j < length ps. \<forall>i < length args. (ps ! j) (fst (args ! i))
           = Some (AttrVal (itertools_product (map (\<lambda>a. iter (snd a)) args) ! j ! i)))
     \<and> set (itertools_product (map (\<lambda>a. iter (snd a)) args))
         = {t. list_all2 (\<lambda>x a. x \<in> set (iter (snd a))) t args}
     \<and> (\<forall>(a :: string \<times> ScanObject) p q.
           p < length (itertools_product (map (\<lambda>a. iter (snd a)) args))
           \<longrightarrow> q < length (iter (snd a))
           \<longrightarrow> itertools_product (map (\<lambda>a. iter (snd a)) (args @ [a])) ! (p * length (iter (snd a)) + q)
               = itertools_product (map (\<lambda>a. iter (snd a)) args) ! p @ [iter (snd a) ! q])"
proof -
  let ?ns = "map fst args"
  let ?P = "itertools_product (map (\<lambda>a. iter (snd a)) args)"
  let ?ps = "map (point ?ns) ?P"
  have gen: "MultiScanManager_gen (MultiScanManager_init args) = Inr ?ps"
    using assms by (rule MultiScanManager_gen_points)
  have l1: "length ?ps = length ?P" by simp
  have l2: "length ?ps = prod_list (map (\<lambda>a. length (iter (snd a))) args)"
    by (simp add: length_itertools_product o_def)
  have len: "length (?P ! j) = length ?ns" if "j < length ?ps" for j
  proof -
    have "?P ! j \<in> set ?P" using that by simp
    then show ?thesis using itertools_product_length_eq by fastforce
  qed
  have a: "\<forall>j < length ?ps. dom (?ps ! j) = insert ''attr'' (set ?ns)"
    using len by (simp add: dom_point)
  have b: "\<forall>j < length ?ps. (?ps ! j) ''attr'' = Some (AttrSet (set ?ns))"
    by (simp add: point_def)
  have c: "\<forall>j < length ?ps. \<forall>i < length args.
      (?ps ! j) (fst (args ! i)) = Some (AttrVal (?P ! j ! i))"
  proof (intro allI impI)
    fix j i assume j: "j < length ?ps" and i: "i < length args"
    have "point ?ns (?P ! j) (?ns ! i) = Some (AttrVal (?P ! j ! i))"
      using assms(1,2) len [OF j] i by (intro point_attr) auto
    then show "(?ps ! j) (fst (args ! i)) = Some (AttrVal (?P ! j ! i))"
      using j i by simp
  qed
  have cart: "set ?P = {t. list_all2 (\<lambda>x a. x \<in> set (iter (snd a))) t args}"
    by (simp add: set_itertools_product list_all2_map2)
  have fast: "\<forall>(a :: string \<times> ScanObject) p q. p < length ?P \<longrightarrow> q < length (iter (snd a))
           \<longrightarrow> itertools_product (map (\<lambda>a. iter (snd a)) (args @ [a])) ! (p * length (iter (snd a)) + q)
               = ?P ! p @ [iter (snd a) ! q]"
  proof (intro allI impI)
    fix a :: "string \<times> ScanObject" and p q
    assume "p < length ?P" "q < length (iter (snd a))"
    then show "itertools_product (map (\<lambda>a. iter (snd a)) (args @ [a])) ! (p * length (iter (snd a)) + q)
               = ?P ! p @ [iter (snd a) ! q]"
      using itertools_product_last_fastest [of p "map (\<lambda>a. iter (snd a)) args" q "iter (snd a)"]
      by simp
  qed
  show ?thesis
    by (rule exI [of _ ?ps], intro conjI) (rule gen l1 l2 a b c cart fast)+
qed

theorem MultiScanManager_product_witness:
  "distinct (map fst [(''a'', ExplicitScan [1, 2]), (''b'', LinearScan 0 1 3)])
   \<and> set (map fst [(''a'', ExplicitScan [1, 2]), (''b'', LinearScan 0 1 3)])
         \<inter> {''attr'', ''self'', ''__class__'', ''__dict__'', ''__weakref__''} = {}
   \<and> list_all (\<lambda>a. 0 \<le> len (snd a)) [(''a'', ExplicitScan [1, 2]), (''b'', LinearScan 0 1 3)]
   \<and> (\<exists>ps. MultiScanManager_gen
          (MultiScanManager_init [(''a'', ExplicitScan [1, 2]), (''b'', LinearScan 0 1 3)]) = Inr ps
        \<and> length ps = 6
        \<and> map (\<lambda>p. (p ''a'', p ''b'')) ps =
            [(Some (AttrVal 1), Some (AttrVal 0)), (Some (AttrVal 1), Some (AttrVal (1/2))),
             (Some (AttrVal 1), Some (AttrVal 1)), (Some (AttrVal 2), Some (AttrVal 0)),
             (Some (AttrVal 2), Some (AttrVal (1/2))), (Some (AttrVal 2), Some (AttrVal 1))])"
proof -
  let ?args = "[(''a'', ExplicitScan [1, 2]), (''b'', LinearScan 0 1 3)]"
  let ?P = "[[1, 0], [1, 1/2], [1, 1], [2, 0], [2, 1/2], [2, 1 :: rat]]"
  have d: "distinct (map fst ?args)" by simp
  have n: "set (map fst ?args) \<inter> {''attr'', ''self'', ''__class__'', ''__dict__'', ''__weakref__''} = {}"
    by simp
  have nn: "list_all (\<lambda>a. 0 \<le> len (snd a)) ?args" by simp
  have P: "itertools_product (map (\<lambda>a. iter (snd a)) ?args) = ?P"
    by (simp add: LinearScan_gen_def range_py_def eval_nat_numeral)
  from MultiScanManager_product [OF d n nn]
  obtain ps where gen: "MultiScanManager_gen (MultiScanManager_init ?args) = Inr ps"
    and l: "length ps = length (itertools_product (map (\<lambda>a. iter (snd a)) ?args))"
    and at: "\<forall>j < length ps. \<forall>i < length ?args. (ps ! j) (fst (?args ! i))
               = Some (AttrVal (itertools_product (map (\<lambda>a. iter (snd a)) ?args) ! j ! i))"
    by (elim exE conjE) (rule that, assumption+)
  have len: "length ps = 6" using l unfolding P by simp
  have at': "(ps ! j) (fst (?args ! i)) = Some (AttrVal (?P ! j ! i))"
    if "j < 6" "i < 2" for j i
    using at that len unfolding P by simp
  have ps: "ps = [ps ! 0, ps ! 1, ps ! 2, ps ! 3, ps ! 4, ps ! 5]"
    using len by (intro nth_equalityI) (auto simp: nth_Cons' less_Suc_eq eval_nat_numeral)
  have "map (\<lambda>p. (p ''a'', p ''b'')) ps
      = map (\<lambda>p. (p ''a'', p ''b'')) [ps ! 0, ps ! 1, ps ! 2, ps ! 3, ps ! 4, ps ! 5]"
    by (rule arg_cong [OF ps])
  also have "\<dots> = [(Some (AttrVal 1), Some (AttrVal 0)), (Some (AttrVal 1), Some (AttrVal (1/2))),
             (Some (AttrVal 1), Some (AttrVal 1)), (Some (AttrVal 2), Some (AttrVal 0)),
             (Some (AttrVal 2), Some (AttrVal (1/2))), (Some (AttrVal 2), Some (AttrVal 1))]"
    using at' [of 0 0] at' [of 0 1] at' [of 1 0] at' [of 1 1] at' [of 2 0] at' [of 2 1]
      at' [of 3 0] at' [of 3 1] at' [of 4 0] at' [of 4 1] at' [of 5 0] at' [of 5 1]
    by simp
  finally have m: "map (\<lambda>p. (p ''a'', p ''b'')) ps
       = [(Some (AttrVal 1), Some (AttrVal 0)), (Some (AttrVal 1), Some (AttrVal (1/2))),
             (Some (AttrVal 1), Some (AttrVal 1)), (Some (AttrVal 2), Some (AttrVal 0)),
             (Some (AttrVal 2), Some (AttrVal (1/2))), (Some (AttrVal 2), Some (AttrVal 1))]" .
  show ?thesis
    by (intro conjI exI [of _ ps]) (rule d n nn gen len m)+
qed

text \<open>
  The claim as written covers every list of pairs. Two scans under one name leave one
  attribute, bound to the value of the later scan (the dictionary keeps one entry per
  key); a scan whose \<open>__len__\<close> is negative, such as \<open>LinearScan(0, 1, -1)\<close>, makes
  \<open>itertools.product\<close> raise \<open>ValueError\<close> where its iteration alone yields nothing.
\<close>

theorem MultiScanManager_by_design:
  "MultiScanManager_gen
       (MultiScanManager_init [(''a'', ExplicitScan [1]), (''a'', ExplicitScan [2])])
     = Inr [[''a'' \<mapsto> AttrVal 2, ''attr'' \<mapsto> AttrSet {''a''}]]
   \<and> iter (LinearScan 0 1 (-1)) = []
   \<and> MultiScanManager_gen (MultiScanManager_init [(''a'', LinearScan 0 1 (-1))])
     = Inl ValueError"
proof -
  have "[''attr'' \<mapsto> AttrSet {}, ''a'' \<mapsto> AttrVal 2, ''attr'' \<mapsto> AttrSet {''a''}]
      = [''a'' \<mapsto> AttrVal 2, ''attr'' \<mapsto> AttrSet {''a''}]"
    by (rule ext) simp
  then show ?thesis
    by (simp add: MultiScanManager_gen_def MultiScanManager_init_def ScanPoint_init_def
        setattr_def dict_of_pairs_def list_py_def LinearScan_gen_def range_py_def bind_def)
qed

text \<open>
  What the amended claim leaves out: a scan named \<open>attr\<close> replaces the point's own set
  \<open>attr\<close> and the first point raises \<open>AttributeError\<close>; a scan named \<open>self\<close> collides with
  the parameter of \<open>ScanPoint.__init__\<close> and raises \<open>TypeError\<close>.
\<close>

lemma ScanPoint_name_clash:
  "MultiScanManager_gen (MultiScanManager_init [(''attr'', NoScan 1 1)]) = Inl AttributeError
   \<and> MultiScanManager_gen (MultiScanManager_init [(''self'', NoScan 1 1)]) = Inl TypeError"
  by (simp add: MultiScanManager_gen_def MultiScanManager_init_def ScanPoint_init_def
      setattr_def dict_of_pairs_def list_py_def NoScan_gen_def range_py_def bind_def)

section \<open>Properties of the DRTIO core\<close>

lemma calls_resync:
  "calls resync sgs g = (map Like sgs, g\<lparr>signals := signals g @ zip sgs (map Like sgs)\<rparr>)"
  by (induction sgs arbitrary: g) (simp_all add: resync_def Let_def)

lemma DRTIOSatellite_sync_None:
  "(rx_signals (link_layer_sync (DRTIOSatellite new m tr ch None f w)),
    rx_synchronizer (DRTIOSatellite new m tr ch None f w))
   = map_prod id Generic
       (calls resync (rx_signals (new (encoder tr) (decoders tr))) GenericRXSynchronizer_init)"
  by (simp add: DRTIOSatellite_def rx_signals_def Let_def split: prod.splits)

lemma DRTIOSatellite_sync_Generic:
  "(rx_signals (link_layer_sync (DRTIOSatellite new m tr ch (Some (Generic g)) f w)),
    rx_synchronizer (DRTIOSatellite new m tr ch (Some (Generic g)) f w))
   = map_prod id Generic (calls resync (rx_signals (new (encoder tr) (decoders tr))) g)"
  by (simp add: DRTIOSatellite_def rx_signals_def Let_def split: prod.splits)

lemma DRTIOSatellite_sync_Other:
  "(rx_signals (link_layer_sync (DRTIOSatellite new m tr ch (Some (Other c)) f w)),
    rx_synchronizer (DRTIOSatellite new m tr ch (Some (Other c)) f w))
   = map_prod id Other (calls m (rx_signals (new (encoder tr) (decoders tr))) c)"
  by (simp add: DRTIOSatellite_def rx_signals_def Let_def split: prod.splits)

lemma DRTIOSatellite_tx:
  "tx_signals (link_layer_sync (DRTIOSatellite new m tr ch rxs f w))
     = tx_signals (new (encoder tr) (decoders tr))"
  by (simp add: DRTIOSatellite_def tx_signals_def Let_def split: prod.splits option.splits)

lemma DRTIOSatellite_submodules:
  "submodules (DRTIOSatellite new m tr ch rxs f w) =
     (case rxs of None \<Rightarrow> [(None, RXSynchronizer)] | Some s \<Rightarrow> []) @
     [(Some ''link_layer'', LinkLayerModule (new (encoder tr) (decoders tr))),
      (Some ''link_stats'',
         LinkLayerStats (link_layer_sync (DRTIOSatellite new m tr ch rxs f w)) ''rtio''),
      (Some ''rt_packet'', ClockDomainsRenamer ''rtio''
         (RTPacketSatellite (link_layer_sync (DRTIOSatellite new m tr ch rxs f w)))),
      (Some ''ios'', IOS (ClockDomainsRenamer ''rtio''
         (RTPacketSatellite (link_layer_sync (DRTIOSatellite new m tr ch rxs f w)))) ch
         (case f of None \<Rightarrow> 3 | Some x \<Rightarrow> x) (case w of None \<Rightarrow> 63 | Some x \<Rightarrow> x)),
      (Some ''aux_controller'', AuxController (new (encoder tr) (decoders tr)))]"
  by (simp add: DRTIOSatellite_def Let_def split: prod.splits option.splits)

lemma DRTIOSatellite_comb:
  "comb (DRTIOSatellite new m tr ch rxs f w) =
     [Assign (Sig (LinkLayer.rx_ready (new (encoder tr) (decoders tr))))
        (Sig (transceiver.rx_ready tr)),
      Assign (Attr ''cd_rio'' ''clk'') (ClockSignal ''rtio''),
      Assign (Attr ''cd_rio'' ''rst'') (Attr ''rt_packet'' ''reset''),
      Assign (Attr ''cd_rio_phy'' ''clk'') (ClockSignal ''rtio''),
      Assign (Attr ''cd_rio_phy'' ''rst'') (Attr ''rt_packet'' ''reset_phy'')]"
  by (simp add: DRTIOSatellite_def Let_def split: prod.splits option.splits)

lemma DRTIOSatellite_clock_domains:
  "clock_domains (DRTIOSatellite new m tr ch rxs f w) = [''rio'', ''rio_phy'']"
  by (simp add: DRTIOSatellite_def ClockDomain_def Let_def split: prod.splits option.splits)


lemma fit_length: "length bits = n \<Longrightarrow> fit n bits = bits"
  by (simp add: fit_def)

lemma length_fit: "length (fit n bits) = n"
  by (simp add: fit_def)

lemma fit_fit: "fit n (fit n bits) = fit n bits"
  by (simp add: fit_length length_fit)

lemma eval_Cat_Sig: "eval env (Cat (map Sig sgs)) = concat (map (\<lambda>s. fit (len_signal s) (env s)) sgs)"
  by (simp add: o_def)

lemma length_eval_Cat_Sig: "length (eval env (Cat (map Sig sgs))) = sum_list (map len_signal sgs)"
  by (simp add: length_concat o_def length_fit)

lemma length_assign_list_Like:
  "length (assign_list (map (\<lambda>s. Sig (Like s)) sgs) bits) = length sgs"
  by (induction sgs arbitrary: bits) simp_all

lemma assign_list_Like_nth:
  assumes "i < length sgs"
  shows "assign_list (map (\<lambda>s. Sig (Like s)) sgs) bits ! i
     = (Like (sgs ! i),
        fit (len_signal (sgs ! i))
          (take (len_signal (sgs ! i)) (drop (sum_list (map len_signal (take i sgs))) bits)))"
  using assms
proof (induction sgs arbitrary: i bits)
  case Nil
  then show ?case by simp
next
  case (Cons s sgs)
  show ?case
  proof (cases i)
    case 0
    then show ?thesis by simp
  next
    case (Suc k)
    then have "k < length sgs" using Cons.prems by simp
    then show ?thesis using Suc Cons.IH [of k "drop (len_signal s) bits"]
      by (simp add: add.commute)
  qed
qed

lemma decode_slices:
  assumes "i < length sgs"
  shows "map snd (assign (Cat (map Sig (map Like sgs))) bits) ! i
     = fit (len_signal (sgs ! i))
         (take (len_signal (sgs ! i)) (drop (sum_list (map len_signal (take i sgs))) bits))"
  using assms by (simp add: o_def length_assign_list_Like assign_list_Like_nth)

lemma decode_targets:
  "map fst (assign (Cat (map Sig (map Like sgs))) bits) = map Like sgs"
  by (rule nth_equalityI)
    (simp_all add: o_def length_assign_list_Like assign_list_Like_nth)

lemma drop_concat_take:
  assumes "i < length vs"
  shows "take (length (vs ! i)) (drop (sum_list (map length (take i vs))) (concat vs)) = vs ! i"
  using assms
proof (induction vs arbitrary: i)
  case Nil
  then show ?case by simp
next
  case (Cons v vs)
  show ?case
  proof (cases i)
    case 0
    then show ?thesis by simp
  next
    case (Suc k)
    then show ?thesis using Cons.prems Cons.IH [of k] by simp
  qed
qed

lemma decode_encode:
  "map snd (assign (Cat (map Sig (map Like sgs))) (eval env (Cat (map Sig sgs))))
     = map (\<lambda>s. fit (len_signal s) (env s)) sgs"
proof (rule nth_equalityI)
  show "length (map snd (assign (Cat (map Sig (map Like sgs))) (eval env (Cat (map Sig sgs)))))
      = length (map (\<lambda>s. fit (len_signal s) (env s)) sgs)"
    by (simp add: o_def length_assign_list_Like)
next
  fix i
  assume "i < length (map snd (assign (Cat (map Sig (map Like sgs))) (eval env (Cat (map Sig sgs)))))"
  then have i: "i < length sgs" by (simp add: o_def length_assign_list_Like)
  let ?vs = "map (\<lambda>s. fit (len_signal s) (env s)) sgs"
  have l: "map length ?vs = map len_signal sgs" by (simp add: length_fit)
  have "take (length (?vs ! i)) (drop (sum_list (map length (take i ?vs))) (concat ?vs)) = ?vs ! i"
    using i by (intro drop_concat_take) simp
  moreover have "length (?vs ! i) = len_signal (sgs ! i)" using i by (simp add: length_fit)
  moreover have "map length (take i ?vs) = map len_signal (take i sgs)"
    using l by (metis take_map)
  ultimately have "take (len_signal (sgs ! i))
      (drop (sum_list (map len_signal (take i sgs))) (concat ?vs)) = ?vs ! i"
    by simp
  then have "fit (len_signal (sgs ! i)) (take (len_signal (sgs ! i))
      (drop (sum_list (map len_signal (take i sgs))) (concat ?vs))) = ?vs ! i"
    using i by (simp add: fit_fit)
  then show "map snd (assign (Cat (map Sig (map Like sgs))) (eval env (Cat (map Sig sgs)))) ! i
      = ?vs ! i"
    using i decode_slices [OF i, of "eval env (Cat (map Sig sgs))"]
    by (simp only: eval_Cat_Sig)
qed

lemma do_finalize_calls:
  "do_finalize (snd (calls resync sgs GenericRXSynchronizer_init)) =
     (if sum_list (map len_signal sgs) = 0 then Inl ValueError
      else Inr \<lparr>submodules =
                  [(None, ElasticBuffer (sum_list (map len_signal sgs)) 4 ''rtio_rx'' ''rtio'')],
                comb = [Assign (Attr ''eb'' ''din'') (Cat (map Sig sgs)),
                        Assign (Cat (map Sig (map Like sgs))) (Attr ''eb'' ''dout'')],
                clock_domains = [], signals = zip sgs (map Like sgs)\<rparr>)"
proof -
  define S where "S = sum_list (map len_signal sgs)"
  have w: "sum_list (map (\<lambda>s. len_signal (fst s)) (zip sgs (map Like sgs))) = S"
    unfolding S_def by (induction sgs) simp_all
  have z1: "map (\<lambda>s. Sig (fst s)) (zip sgs (map Like sgs)) = map Sig sgs"
    by (induction sgs) simp_all
  have z2: "map (\<lambda>s. Sig (snd s)) (zip sgs (map Like sgs)) = map Sig (map Like sgs)"
    by (induction sgs) simp_all
  have "do_finalize (snd (calls resync sgs GenericRXSynchronizer_init)) =
     (if S = 0 then Inl ValueError
      else Inr \<lparr>submodules = [(None, ElasticBuffer S 4 ''rtio_rx'' ''rtio'')],
                comb = [Assign (Attr ''eb'' ''din'') (Cat (map Sig sgs)),
                        Assign (Cat (map Sig (map Like sgs))) (Attr ''eb'' ''dout'')],
                clock_domains = [], signals = zip sgs (map Like sgs)\<rparr>)"
    using z1 z2
    by (simp add: do_finalize_def ElasticBuffer_init_def bind_def calls_resync
        GenericRXSynchronizer_init_def w)
  then show ?thesis unfolding S_def .
qed

lemma do_finalize_Inr:
  assumes "do_finalize (snd (calls resync sgs GenericRXSynchronizer_init)) = Inr g"
  shows "0 < sum_list (map len_signal sgs)"
    and "submodules g = [(None, ElasticBuffer (sum_list (map len_signal sgs)) 4 ''rtio_rx'' ''rtio'')]"
    and "comb g = [Assign (Attr ''eb'' ''din'') (Cat (map Sig sgs)),
                   Assign (Cat (map Sig (map Like sgs))) (Attr ''eb'' ''dout'')]"
    and "signals g = zip sgs (map Like sgs)"
proof -
  define S where "S = sum_list (map len_signal sgs)"
  have d: "(if S = 0 then Inl ValueError
      else Inr \<lparr>submodules = [(None, ElasticBuffer S 4 ''rtio_rx'' ''rtio'')],
                comb = [Assign (Attr ''eb'' ''din'') (Cat (map Sig sgs)),
                        Assign (Cat (map Sig (map Like sgs))) (Attr ''eb'' ''dout'')],
                clock_domains = [], signals = zip sgs (map Like sgs)\<rparr>) = Inr g"
    using assms unfolding do_finalize_calls S_def .
  then have pos: "S \<noteq> 0" by (cases "S = 0") simp_all
  then have g: "g = \<lparr>submodules = [(None, ElasticBuffer S 4 ''rtio_rx'' ''rtio'')],
                comb = [Assign (Attr ''eb'' ''din'') (Cat (map Sig sgs)),
                        Assign (Cat (map Sig (map Like sgs))) (Attr ''eb'' ''dout'')],
                clock_domains = [], signals = zip sgs (map Like sgs)\<rparr>"
    using d by simp
  show "0 < sum_list (map len_signal sgs)" using pos unfolding S_def by blast
  show "submodules g = [(None, ElasticBuffer (sum_list (map len_signal sgs)) 4 ''rtio_rx'' ''rtio'')]"
    unfolding S_def [symmetric] by (simp add: g)
  show "comb g = [Assign (Attr ''eb'' ''din'') (Cat (map Sig sgs)),
                   Assign (Cat (map Sig (map Like sgs))) (Attr ''eb'' ''dout'')]"
    by (simp add: g)
  show "signals g = zip sgs (map Like sgs)"
    by (simp add: g)
qed

lemma bridge_write_step:
  assumes "do_finalize (snd (calls resync sgs GenericRXSynchronizer_init)) = Inr g"
  shows "bridge_step g (WriteTick env) st =
     (if length (fifo st) < 4
      then Some (st\<lparr>fifo := fifo st @ [eval env (Cat (map Sig sgs))],
                   written := written st @ [map (\<lambda>s. fit (len_signal s) (env s)) sgs]\<rparr>)
      else None)"
proof -
  have e: "fit (sum_list (map len_signal sgs)) (eval env (Cat (map Sig sgs)))
      = eval env (Cat (map Sig sgs))"
    by (rule fit_length) (rule length_eval_Cat_Sig)
  have t: "map (\<lambda>s. eval env (Sig (fst s))) (zip sgs (map Like sgs))
      = map (\<lambda>s. fit (len_signal s) (env s)) sgs"
    by (induction sgs) simp_all
  show ?thesis
    using e t
    by (simp add: do_finalize_Inr [OF assms] drivers_def eb_write_def del: eval.simps)
qed

lemma bridge_read_step:
  assumes "do_finalize (snd (calls resync sgs GenericRXSynchronizer_init)) = Inr g"
  shows "bridge_step g ReadTick st =
     (case fifo st of
        [] \<Rightarrow> None
      | w # q \<Rightarrow>
          Some (st\<lparr>fifo := q,
                  received := received st @ [map snd (assign (Cat (map Sig (map Like sgs))) w)]\<rparr>))"
  by (simp add: do_finalize_Inr [OF assms] targets_def eb_read_def
      split: list.splits del: assign.simps)

lemma bridge_step_invariant:
  assumes fin: "do_finalize (snd (calls resync sgs GenericRXSynchronizer_init)) = Inr g"
    and step: "bridge_step g e st = Some st'"
    and inv: "written st = received st
        @ map (\<lambda>w. map snd (assign (Cat (map Sig (map Like sgs))) w)) (fifo st)"
    and bound: "length (fifo st) \<le> 4"
  shows "written st' = received st'
        @ map (\<lambda>w. map snd (assign (Cat (map Sig (map Like sgs))) w)) (fifo st')"
    and "length (fifo st') \<le> 4"
    and "written st' = written st
        @ map (\<lambda>env. map (\<lambda>s. fit (len_signal s) (env s)) sgs) (write_envs [e])"
proof -
  show "written st' = received st'
        @ map (\<lambda>w. map snd (assign (Cat (map Sig (map Like sgs))) w)) (fifo st')"
  proof (cases e)
    case (WriteTick env)
    then show ?thesis
      using step [unfolded WriteTick bridge_write_step [OF fin]] inv decode_encode [of sgs env]
      by (auto split: if_splits simp del: eval.simps assign.simps)
  next
    case ReadTick
    then show ?thesis
      using step [unfolded ReadTick bridge_read_step [OF fin]] inv
      by (auto split: list.splits simp del: assign.simps)
  qed
  show "length (fifo st') \<le> 4"
  proof (cases e)
    case (WriteTick env)
    then show ?thesis
      using step [unfolded WriteTick bridge_write_step [OF fin]]
      by (auto split: if_splits simp del: eval.simps)
  next
    case ReadTick
    then show ?thesis
      using step [unfolded ReadTick bridge_read_step [OF fin]] bound
      by (auto split: list.splits simp del: assign.simps)
  qed
  show "written st' = written st
        @ map (\<lambda>env. map (\<lambda>s. fit (len_signal s) (env s)) sgs) (write_envs [e])"
  proof (cases e)
    case (WriteTick env)
    then show ?thesis
      using step [unfolded WriteTick bridge_write_step [OF fin]]
      by (auto split: if_splits simp del: eval.simps)
  next
    case ReadTick
    then show ?thesis
      using step [unfolded ReadTick bridge_read_step [OF fin]]
      by (auto split: list.splits simp del: assign.simps)
  qed
qed

lemma write_envs_append: "write_envs (es @ es') = write_envs es @ write_envs es'"
  by (induction es rule: write_envs.induct) simp_all

lemma bridge_run_invariant:
  assumes fin: "do_finalize (snd (calls resync sgs GenericRXSynchronizer_init)) = Inr g"
    and run: "bridge_run g es st = Some st'"
    and inv: "written st = received st @ map (\<lambda>w. map snd (assign (Cat (map Sig (map Like sgs))) w)) (fifo st)"
    and bound: "length (fifo st) \<le> 4"
  shows "written st' = received st' @ map (\<lambda>w. map snd (assign (Cat (map Sig (map Like sgs))) w)) (fifo st')
     \<and> length (fifo st') \<le> 4
     \<and> written st' = written st @ map (\<lambda>env. map (\<lambda>s. fit (len_signal s) (env s)) sgs) (write_envs es)"
  using run inv bound
proof (induction es arbitrary: st)
  case Nil
  then show ?case by simp
next
  case (Cons e es)
  from Cons.prems(1) obtain t where t: "bridge_step g e st = Some t" "bridge_run g es t = Some st'"
    by (auto split: option.splits)
  note s = bridge_step_invariant [OF fin t(1) Cons.prems(2) Cons.prems(3)]
  have ih: "written st' = received st' @ map (\<lambda>w. map snd (assign (Cat (map Sig (map Like sgs))) w)) (fifo st')
     \<and> length (fifo st') \<le> 4
     \<and> written st' = written t @ map (\<lambda>env. map (\<lambda>s. fit (len_signal s) (env s)) sgs) (write_envs es)"
    using t(2) s(1) s(2) by (rule Cons.IH)
  have we: "write_envs (e # es) = write_envs [e] @ write_envs es"
    using write_envs_append [of "[e]" es] by simp
  have "written st' = written t @ map (\<lambda>env. map (\<lambda>s. fit (len_signal s) (env s)) sgs) (write_envs es)"
    using ih by (rule conjunct2 [THEN conjunct2])
  also have "\<dots> = (written st @ map (\<lambda>env. map (\<lambda>s. fit (len_signal s) (env s)) sgs) (write_envs [e])) @ map (\<lambda>env. map (\<lambda>s. fit (len_signal s) (env s)) sgs) (write_envs es)"
    by (simp only: s(3))
  also have "\<dots> = written st @ map (\<lambda>env. map (\<lambda>s. fit (len_signal s) (env s)) sgs) (write_envs (e # es))"
    by (simp only: we map_append append_assoc)
  finally have w: "written st' = written st @ map (\<lambda>env. map (\<lambda>s. fit (len_signal s) (env s)) sgs) (write_envs (e # es))" .
  show ?case
    by (intro conjI) (rule ih [THEN conjunct1], rule ih [THEN conjunct2, THEN conjunct1], rule w)
qed

lemma bridge_drain:
  assumes fin: "do_finalize (snd (calls resync sgs GenericRXSynchronizer_init)) = Inr g"
    and inv: "written st = received st @ map (\<lambda>w. map snd (assign (Cat (map Sig (map Like sgs))) w)) (fifo st)"
  shows "\<exists>st'. bridge_run g (replicate (length (fifo st)) ReadTick) st = Some st'
     \<and> received st' = written st \<and> written st' = written st \<and> fifo st' = []"
  using inv
proof (induction "fifo st" arbitrary: st)
  case Nil
  then show ?case by simp
next
  case (Cons w q)
  let ?t = "st\<lparr>fifo := q, received := received st @ [(\<lambda>w. map snd (assign (Cat (map Sig (map Like sgs))) w)) w]\<rparr>"
  have f: "fifo st = w # q" using Cons.hyps(2) by simp
  have step: "bridge_step g ReadTick st = Some ?t"
    using f by (simp add: bridge_read_step [OF fin] del: bridge_step.simps assign.simps)
  have "q = fifo ?t" by simp
  moreover have "written ?t = received ?t @ map (\<lambda>w. map snd (assign (Cat (map Sig (map Like sgs))) w)) (fifo ?t)"
    using Cons.prems f by simp
  ultimately have "\<exists>st'. bridge_run g (replicate (length (fifo ?t)) ReadTick) ?t = Some st'
     \<and> received st' = written ?t \<and> written st' = written ?t \<and> fifo st' = []"
    by (rule Cons.hyps(1))
  then show ?case using step f by (simp del: bridge_step.simps)
qed

text \<open>
  Claim C2, as amended. When signals of a positive total width have been registered
  with \<open>resync\<close> on a new \<open>GenericRXSynchronizer\<close>, \<open>do_finalize\<close> succeeds and leaves
  exactly one submodule: an elastic buffer whose width is the sum of the widths of the
  registered signals, of depth 4, with input (write) domain \<open>rtio_rx\<close> and output (read)
  domain \<open>rtio\<close>.
\<close>

theorem do_finalize_elastic_buffer:
  assumes "0 < sum_list (map len_signal sgs)"
  shows "\<exists>g. do_finalize (snd (calls resync sgs GenericRXSynchronizer_init)) = Inr g
     \<and> submodules g
         = [(None, ElasticBuffer (sum_list (map len_signal sgs)) 4 ''rtio_rx'' ''rtio'')]
     \<and> length (submodules g) = 1
     \<and> map (\<lambda>c. (eb_width (snd c), eb_depth (snd c), idomain (snd c), odomain (snd c)))
          (submodules g)
         = [(sum_list (map len_signal sgs), 4, ''rtio_rx'', ''rtio'')]"
proof -
  have "sum_list (map len_signal sgs) \<noteq> 0" using assms by (rule gr_implies_not0)
  then obtain g where g: "do_finalize (snd (calls resync sgs GenericRXSynchronizer_init)) = Inr g"
    unfolding do_finalize_calls by (simp only: if_False)
  have s: "submodules g
      = [(None, ElasticBuffer (sum_list (map len_signal sgs)) 4 ''rtio_rx'' ''rtio'')]"
    by (rule do_finalize_Inr(2) [OF g])
  have l: "length (submodules g) = 1" by (simp add: s)
  have m: "map (\<lambda>c. (eb_width (snd c), eb_depth (snd c), idomain (snd c), odomain (snd c)))
          (submodules g) = [(sum_list (map len_signal sgs), 4, ''rtio_rx'', ''rtio'')]"
    by (simp add: s)
  show ?thesis by (intro exI [of _ g] conjI) (rule g s l m)+
qed

theorem do_finalize_elastic_buffer_witness:
  "0 < sum_list (map len_signal [Signal ''rx_aux_stb'' 1, Signal ''rx_aux_data'' 8])
   \<and> (\<exists>g. do_finalize (snd (calls resync [Signal ''rx_aux_stb'' 1, Signal ''rx_aux_data'' 8]
                GenericRXSynchronizer_init)) = Inr g
        \<and> submodules g = [(None, ElasticBuffer 9 4 ''rtio_rx'' ''rtio'')])"
proof -
  have h: "0 < sum_list (map len_signal [Signal ''rx_aux_stb'' 1, Signal ''rx_aux_data'' 8])"
    by simp
  have "\<exists>g. do_finalize (snd (calls resync [Signal ''rx_aux_stb'' 1, Signal ''rx_aux_data'' 8]
                GenericRXSynchronizer_init)) = Inr g
        \<and> submodules g = [(None, ElasticBuffer
             (sum_list (map len_signal [Signal ''rx_aux_stb'' 1, Signal ''rx_aux_data'' 8])) 4
             ''rtio_rx'' ''rtio'')]"
    using do_finalize_elastic_buffer [OF h] by blast
  then show ?thesis using h by simp
qed

text \<open>
  The claim as written covers the finalization of a synchronizer on which nothing has
  been registered: the width is 0, the buffer's constructor raises and no buffer is
  created.
\<close>

theorem do_finalize_nothing_registered:
  "signals GenericRXSynchronizer_init = []
   \<and> do_finalize GenericRXSynchronizer_init = Inl ValueError"
  by (simp add: do_finalize_def ElasticBuffer_init_def bind_def GenericRXSynchronizer_init_def)

text \<open>
  Claim C3, as amended, with the buffer as the specification describes it. For every
  list \<open>sgs\<close> of signals registered with \<open>resync\<close> on a new \<open>GenericRXSynchronizer\<close> whose
  finalization succeeds (their total width is positive), and for every sequence of
  write and read ticks that the buffer takes (no overflow, no read of an empty
  buffer): each call of \<open>resync\<close> returned a signal of the width of its argument; the
  buffer's input is the \<open>Cat\<close> of the originals in registration order and its output is
  assigned to the \<open>Cat\<close> of the synchronized signals in the same order, the \<open>i\<close>-th of
  them taking the slice that starts at the sum of the widths before it; the values
  written are those the originals had at the write ticks; the values the synchronized
  signals have received, followed by those still in the buffer, are exactly the values
  written, in order, so that every value written is received once, by the signal at
  its position, and none is received twice or out of order; the buffer holds at most 4
  words; and as many read ticks as there are words in the buffer deliver every value
  written.
\<close>

theorem bridge_exactly_once:
  assumes "do_finalize (snd (calls resync sgs GenericRXSynchronizer_init)) = Inr g"
    and "bridge_run g es bridge_init = Some st"
  shows "map len_signal (fst (calls resync sgs GenericRXSynchronizer_init)) = map len_signal sgs
     \<and> comb g = [Assign (Attr ''eb'' ''din'') (Cat (map Sig sgs)),
                 Assign (Cat (map Sig (fst (calls resync sgs GenericRXSynchronizer_init))))
                   (Attr ''eb'' ''dout'')]
     \<and> (\<forall>w. map fst (assign (Cat (map Sig (fst (calls resync sgs GenericRXSynchronizer_init)))) w)
            = fst (calls resync sgs GenericRXSynchronizer_init))
     \<and> (\<forall>w i. i < length sgs \<longrightarrow>
           map snd (assign (Cat (map Sig (fst (calls resync sgs GenericRXSynchronizer_init)))) w) ! i
             = fit (len_signal (sgs ! i))
                 (take (len_signal (sgs ! i))
                    (drop (sum_list (map len_signal (take i sgs))) w)))
     \<and> written st = map (\<lambda>env. map (\<lambda>s. fit (len_signal s) (env s)) sgs) (write_envs es)
     \<and> written st = received st
         @ map (\<lambda>w. map snd
             (assign (Cat (map Sig (fst (calls resync sgs GenericRXSynchronizer_init)))) w))
             (fifo st)
     \<and> prefix (received st) (written st)
     \<and> length (written st) = length (received st) + length (fifo st)
     \<and> length (fifo st) \<le> 4
     \<and> (\<exists>st'. bridge_run g (replicate (length (fifo st)) ReadTick) st = Some st'
           \<and> received st' = written st \<and> written st' = written st \<and> fifo st' = [])"
proof -
  have outs: "fst (calls resync sgs GenericRXSynchronizer_init) = map Like sgs"
    by (simp add: calls_resync)
  have a: "map len_signal (fst (calls resync sgs GenericRXSynchronizer_init)) = map len_signal sgs"
    unfolding outs by (induction sgs) simp_all
  have b: "comb g = [Assign (Attr ''eb'' ''din'') (Cat (map Sig sgs)),
                 Assign (Cat (map Sig (fst (calls resync sgs GenericRXSynchronizer_init))))
                   (Attr ''eb'' ''dout'')]"
    unfolding outs by (rule do_finalize_Inr(3) [OF assms(1)])
  have c: "\<forall>w. map fst (assign (Cat (map Sig (fst (calls resync sgs GenericRXSynchronizer_init)))) w)
            = fst (calls resync sgs GenericRXSynchronizer_init)"
    unfolding outs by (intro allI decode_targets)
  have d: "\<forall>w i. i < length sgs \<longrightarrow>
           map snd (assign (Cat (map Sig (fst (calls resync sgs GenericRXSynchronizer_init)))) w) ! i
             = fit (len_signal (sgs ! i))
                 (take (len_signal (sgs ! i))
                    (drop (sum_list (map len_signal (take i sgs))) w))"
    unfolding outs by (intro allI impI decode_slices)
  have i0: "written bridge_init = received bridge_init @ map (\<lambda>w. map snd (assign (Cat (map Sig (map Like sgs))) w)) (fifo bridge_init)"
    by (simp add: bridge_init_def)
  have b0: "length (fifo bridge_init) \<le> 4" by (simp add: bridge_init_def)
  have inv: "written st = received st @ map (\<lambda>w. map snd (assign (Cat (map Sig (map Like sgs))) w)) (fifo st)
     \<and> length (fifo st) \<le> 4
     \<and> written st = written bridge_init @ map (\<lambda>env. map (\<lambda>s. fit (len_signal s) (env s)) sgs) (write_envs es)"
    using assms i0 b0 by (rule bridge_run_invariant)
  have wi: "written bridge_init = []" by (simp add: bridge_init_def)
  have e: "written st = map (\<lambda>env. map (\<lambda>s. fit (len_signal s) (env s)) sgs) (write_envs es)"
    using inv [THEN conjunct2, THEN conjunct2] unfolding wi by (simp only: append_Nil)
  have f: "written st = received st
         @ map (\<lambda>w. map snd
             (assign (Cat (map Sig (fst (calls resync sgs GenericRXSynchronizer_init)))) w))
             (fifo st)"
    unfolding outs using inv by (rule conjunct1)
  have p: "prefix (received st) (written st)"
    using inv [THEN conjunct1] by (rule prefixI)
  have l: "length (written st) = length (received st) + length (fifo st)"
    using arg_cong [OF conjunct1 [OF inv], of length] by (simp only: length_append length_map)
  have k: "length (fifo st) \<le> 4" using inv by (rule conjunct2 [THEN conjunct1])
  have dr: "\<exists>st'. bridge_run g (replicate (length (fifo st)) ReadTick) st = Some st'
           \<and> received st' = written st \<and> written st' = written st \<and> fifo st' = []"
    using assms(1) conjunct1 [OF inv] by (rule bridge_drain)
  show ?thesis
    by (intro conjI) (rule a b c d e f p l k dr)+
qed

theorem bridge_exactly_once_witness:
  "do_finalize (snd (calls resync [Signal ''a'' 1, Signal ''b'' 2] GenericRXSynchronizer_init))
     = Inr \<lparr>submodules = [(None, ElasticBuffer 3 4 ''rtio_rx'' ''rtio'')],
             comb = [Assign (Attr ''eb'' ''din'') (Cat [Sig (Signal ''a'' 1), Sig (Signal ''b'' 2)]),
                     Assign (Cat [Sig (Like (Signal ''a'' 1)), Sig (Like (Signal ''b'' 2))])
                       (Attr ''eb'' ''dout'')],
             clock_domains = [],
             signals = [(Signal ''a'' 1, Like (Signal ''a'' 1)),
                        (Signal ''b'' 2, Like (Signal ''b'' 2))]\<rparr>
   \<and> bridge_run
        \<lparr>submodules = [(None, ElasticBuffer 3 4 ''rtio_rx'' ''rtio'')],
         comb = [Assign (Attr ''eb'' ''din'') (Cat [Sig (Signal ''a'' 1), Sig (Signal ''b'' 2)]),
                 Assign (Cat [Sig (Like (Signal ''a'' 1)), Sig (Like (Signal ''b'' 2))])
                   (Attr ''eb'' ''dout'')],
         clock_domains = [],
         signals = [(Signal ''a'' 1, Like (Signal ''a'' 1)),
                    (Signal ''b'' 2, Like (Signal ''b'' 2))]\<rparr>
        [WriteTick (\<lambda>s. if s = Signal ''a'' 1 then [True] else [False, True]),
         WriteTick (\<lambda>s. [False, False]),
         ReadTick]
        bridge_init
     = Some \<lparr>fifo = [[False, False, False]],
              written = [[[True], [False, True]], [[False], [False, False]]],
              received = [[[True], [False, True]]]\<rparr>
   \<and> prefix [[[True], [False, True]]] [[[True], [False, True]], [[False], [False, False]]]"
proof -
  let ?g = "\<lparr>submodules = [(None, ElasticBuffer 3 4 ''rtio_rx'' ''rtio'')],
         comb = [Assign (Attr ''eb'' ''din'') (Cat [Sig (Signal ''a'' 1), Sig (Signal ''b'' 2)]),
                 Assign (Cat [Sig (Like (Signal ''a'' 1)), Sig (Like (Signal ''b'' 2))])
                   (Attr ''eb'' ''dout'')],
         clock_domains = [],
         signals = [(Signal ''a'' 1, Like (Signal ''a'' 1)),
                    (Signal ''b'' 2, Like (Signal ''b'' 2))]\<rparr>"
  let ?es = "[WriteTick (\<lambda>s. if s = Signal ''a'' 1 then [True] else [False, True]),
         WriteTick (\<lambda>s. [False, False]), ReadTick]"
  let ?st = "\<lparr>fifo = [[False, False, False]],
              written = [[[True], [False, True]], [[False], [False, False]]],
              received = [[[True], [False, True]]]\<rparr>"
  have fin: "do_finalize (snd (calls resync [Signal ''a'' 1, Signal ''b'' 2]
      GenericRXSynchronizer_init)) = Inr ?g"
    by (simp add: do_finalize_calls del: calls.simps)
  have run: "bridge_run ?g ?es bridge_init = Some ?st"
    by (simp add: bridge_init_def drivers_def targets_def eb_write_def eb_read_def fit_def)
  have "prefix (received ?st) (written ?st)"
    using bridge_exactly_once [OF fin run] by blast
  then have p: "prefix [[[True], [False, True]]]
      [[[True], [False, True]], [[False], [False, False]]]"
    by simp
  show ?thesis by (intro conjI) (rule fin run p)+
qed

text \<open>
  The claim as written covers every sequence of registered signals, the empty one
  included: there the finalization raises and there is no buffer, no input and no
  output.
\<close>

theorem bridge_nothing_registered:
  "fst (calls resync [] GenericRXSynchronizer_init) = []
   \<and> do_finalize (snd (calls resync [] GenericRXSynchronizer_init)) = Inl ValueError"
  by (simp add: do_finalize_def ElasticBuffer_init_def bind_def GenericRXSynchronizer_init_def)

text \<open>
  Claim C1. In \<open>DRTIOSatellite\<close>, whatever the arguments, the seven receive-side fields
  of \<open>link_layer_sync\<close> (\<open>rx_aux_stb\<close>, \<open>rx_aux_frame\<close>, \<open>rx_aux_frame_perm\<close>,
  \<open>rx_aux_data\<close>, \<open>rx_rt_frame\<close>, \<open>rx_rt_frame_perm\<close>, \<open>rx_rt_data\<close>) are the results
  of calling the synchronizer's \<open>resync\<close> on the link layer's signals of these names, in
  this order, the synchronizer's state passing from one call to the next: the method
  \<open>resync\<close> of \<open>GenericRXSynchronizer\<close> for the default synchronizer and for a supplied
  generic one (each field is then the new signal \<open>Like\<close> of the link layer's,
  registered with it as a pair), and the method \<open>m\<close> of the supplied object for a
  synchronizer of another class. The five transmit-side fields are the link layer's own
  signals. \<open>link_layer_sync\<close> is what \<open>LinkLayerStats\<close> (with domain \<open>rtio\<close>) and
  \<open>RTPacketSatellite\<close> receive, and the latter is wrapped in
  \<open>ClockDomainsRenamer("rtio")\<close>. (\<open>AuxController\<close> receives the link layer itself; it
  is given no clock domain here and its clocking is outside these sources.)
\<close>

theorem DRTIOSatellite_rx_resynchronized:
  "(rx_signals (link_layer_sync (DRTIOSatellite new m tr ch None f w)), rx_synchronizer (DRTIOSatellite new m tr ch None f w))
     = map_prod id Generic (calls resync (rx_signals (new (encoder tr) (decoders tr))) GenericRXSynchronizer_init)
   \<and> (rx_signals (link_layer_sync (DRTIOSatellite new m tr ch (Some (Generic g)) f w)), rx_synchronizer (DRTIOSatellite new m tr ch (Some (Generic g)) f w))
     = map_prod id Generic (calls resync (rx_signals (new (encoder tr) (decoders tr))) g)
   \<and> (rx_signals (link_layer_sync (DRTIOSatellite new m tr ch (Some (Other c)) f w)), rx_synchronizer (DRTIOSatellite new m tr ch (Some (Other c)) f w))
     = map_prod id Other (calls m (rx_signals (new (encoder tr) (decoders tr))) c)
   \<and> rx_aux_stb (link_layer_sync (DRTIOSatellite new m tr ch (Some (Other c)) f w)) = fst (m (rx_aux_stb (new (encoder tr) (decoders tr))) c)
   \<and> rx_aux_frame (link_layer_sync (DRTIOSatellite new m tr ch (Some (Other c)) f w))
       = fst (m (rx_aux_frame (new (encoder tr) (decoders tr))) (snd (m (rx_aux_stb (new (encoder tr) (decoders tr))) c)))
   \<and> rx_signals (link_layer_sync (DRTIOSatellite new m tr ch None f w)) = map Like (rx_signals (new (encoder tr) (decoders tr)))
   \<and> rx_synchronizer (DRTIOSatellite new m tr ch None f w)
       = Generic (GenericRXSynchronizer_init
           \<lparr>signals := zip (rx_signals (new (encoder tr) (decoders tr))) (map Like (rx_signals (new (encoder tr) (decoders tr))))\<rparr>)
   \<and> rx_signals (link_layer_sync (DRTIOSatellite new m tr ch (Some (Generic g)) f w)) = map Like (rx_signals (new (encoder tr) (decoders tr)))
   \<and> rx_synchronizer (DRTIOSatellite new m tr ch (Some (Generic g)) f w)
       = Generic (g\<lparr>signals := signals g @ zip (rx_signals (new (encoder tr) (decoders tr))) (map Like (rx_signals (new (encoder tr) (decoders tr))))\<rparr>)
   \<and> tx_signals (link_layer_sync (DRTIOSatellite new m tr ch rxs f w)) = tx_signals (new (encoder tr) (decoders tr))
   \<and> map_of (submodules (DRTIOSatellite new m tr ch rxs f w)) (Some ''link_stats'')
       = Some (LinkLayerStats (link_layer_sync (DRTIOSatellite new m tr ch rxs f w)) ''rtio'')
   \<and> map_of (submodules (DRTIOSatellite new m tr ch rxs f w)) (Some ''rt_packet'')
       = Some (ClockDomainsRenamer ''rtio'' (RTPacketSatellite (link_layer_sync (DRTIOSatellite new m tr ch rxs f w))))
   \<and> map_of (submodules (DRTIOSatellite new m tr ch rxs f w)) (Some ''aux_controller'') = Some (AuxController (new (encoder tr) (decoders tr)))"
proof -
  have n: "(rx_signals (link_layer_sync (DRTIOSatellite new m tr ch None f w)), rx_synchronizer (DRTIOSatellite new m tr ch None f w))
     = map_prod id Generic (calls resync (rx_signals (new (encoder tr) (decoders tr))) GenericRXSynchronizer_init)"
    by (rule DRTIOSatellite_sync_None)
  have g: "(rx_signals (link_layer_sync (DRTIOSatellite new m tr ch (Some (Generic g)) f w)), rx_synchronizer (DRTIOSatellite new m tr ch (Some (Generic g)) f w))
     = map_prod id Generic (calls resync (rx_signals (new (encoder tr) (decoders tr))) g)"
    by (rule DRTIOSatellite_sync_Generic)
  have o: "(rx_signals (link_layer_sync (DRTIOSatellite new m tr ch (Some (Other c)) f w)), rx_synchronizer (DRTIOSatellite new m tr ch (Some (Other c)) f w))
     = map_prod id Other (calls m (rx_signals (new (encoder tr) (decoders tr))) c)"
    by (rule DRTIOSatellite_sync_Other)
  have o1: "rx_aux_stb (link_layer_sync (DRTIOSatellite new m tr ch (Some (Other c)) f w)) = fst (m (rx_aux_stb (new (encoder tr) (decoders tr))) c)"
    by (simp add: DRTIOSatellite_def Let_def split: prod.splits)
  have o2: "rx_aux_frame (link_layer_sync (DRTIOSatellite new m tr ch (Some (Other c)) f w))
       = fst (m (rx_aux_frame (new (encoder tr) (decoders tr))) (snd (m (rx_aux_stb (new (encoder tr) (decoders tr))) c)))"
    by (simp add: DRTIOSatellite_def Let_def split: prod.splits)
  have n': "(rx_signals (link_layer_sync (DRTIOSatellite new m tr ch None f w)), rx_synchronizer (DRTIOSatellite new m tr ch None f w))
     = (map Like (rx_signals (new (encoder tr) (decoders tr))), Generic (GenericRXSynchronizer_init
           \<lparr>signals := zip (rx_signals (new (encoder tr) (decoders tr))) (map Like (rx_signals (new (encoder tr) (decoders tr))))\<rparr>))"
    unfolding n by (simp add: calls_resync GenericRXSynchronizer_init_def)
  have n1: "rx_signals (link_layer_sync (DRTIOSatellite new m tr ch None f w))
      = map Like (rx_signals (new (encoder tr) (decoders tr)))"
    and n2: "rx_synchronizer (DRTIOSatellite new m tr ch None f w)
      = Generic (GenericRXSynchronizer_init
           \<lparr>signals := zip (rx_signals (new (encoder tr) (decoders tr))) (map Like (rx_signals (new (encoder tr) (decoders tr))))\<rparr>)"
    using n' by simp_all
  have g': "(rx_signals (link_layer_sync (DRTIOSatellite new m tr ch (Some (Generic g)) f w)), rx_synchronizer (DRTIOSatellite new m tr ch (Some (Generic g)) f w))
     = (map Like (rx_signals (new (encoder tr) (decoders tr))),
        Generic (g\<lparr>signals := signals g @ zip (rx_signals (new (encoder tr) (decoders tr))) (map Like (rx_signals (new (encoder tr) (decoders tr))))\<rparr>))"
    unfolding g by (simp add: calls_resync)
  have g1: "rx_signals (link_layer_sync (DRTIOSatellite new m tr ch (Some (Generic g)) f w))
      = map Like (rx_signals (new (encoder tr) (decoders tr)))"
    and g2: "rx_synchronizer (DRTIOSatellite new m tr ch (Some (Generic g)) f w)
      = Generic (g\<lparr>signals := signals g @ zip (rx_signals (new (encoder tr) (decoders tr))) (map Like (rx_signals (new (encoder tr) (decoders tr))))\<rparr>)"
    using g' by simp_all
  have t: "tx_signals (link_layer_sync (DRTIOSatellite new m tr ch rxs f w)) = tx_signals (new (encoder tr) (decoders tr))"
    by (rule DRTIOSatellite_tx)
  have s1: "map_of (submodules (DRTIOSatellite new m tr ch rxs f w)) (Some ''link_stats'')
       = Some (LinkLayerStats (link_layer_sync (DRTIOSatellite new m tr ch rxs f w)) ''rtio'')"
    by (simp add: DRTIOSatellite_submodules split: option.splits)
  have s2: "map_of (submodules (DRTIOSatellite new m tr ch rxs f w)) (Some ''rt_packet'')
       = Some (ClockDomainsRenamer ''rtio'' (RTPacketSatellite (link_layer_sync (DRTIOSatellite new m tr ch rxs f w))))"
    by (simp add: DRTIOSatellite_submodules split: option.splits)
  have s3: "map_of (submodules (DRTIOSatellite new m tr ch rxs f w)) (Some ''aux_controller'') = Some (AuxController (new (encoder tr) (decoders tr)))"
    by (simp add: DRTIOSatellite_submodules split: option.splits)
  show ?thesis
    by (intro conjI) (rule n g o o1 o2 n1 n2 g1 g2 t s1 s2 s3)+
qed

text \<open>
  Claim C4. Without an \<open>rx_synchronizer\<close> argument the satellite's synchronizer is a new
  \<open>GenericRXSynchronizer\<close>, on which the seven signals are registered, and it is added to
  the submodules, first and once. With a supplied synchronizer, that object is the one
  whose \<open>resync\<close> is called for the seven signals (\<open>resync\<close> of \<open>GenericRXSynchronizer\<close>
  on a supplied generic one, the method \<open>m\<close> of its own class on another one), its
  results are the receive-side fields of \<open>link_layer_sync\<close>, and the constructor does not
  add it to the submodules.
\<close>

theorem DRTIOSatellite_default_synchronizer:
  "rx_synchronizer (DRTIOSatellite new m tr ch None f w)
     = Generic (snd (calls resync (rx_signals (new (encoder tr) (decoders tr))) GenericRXSynchronizer_init))
   \<and> rx_signals (link_layer_sync (DRTIOSatellite new m tr ch None f w))
       = fst (calls resync (rx_signals (new (encoder tr) (decoders tr))) GenericRXSynchronizer_init)
   \<and> hd (submodules (DRTIOSatellite new m tr ch None f w)) = (None, RXSynchronizer)
   \<and> length (filter (\<lambda>c. snd c = RXSynchronizer) (submodules (DRTIOSatellite new m tr ch None f w))) = 1
   \<and> rx_synchronizer (DRTIOSatellite new m tr ch (Some (Generic g)) f w) = Generic (snd (calls resync (rx_signals (new (encoder tr) (decoders tr))) g))
   \<and> rx_signals (link_layer_sync (DRTIOSatellite new m tr ch (Some (Generic g)) f w)) = fst (calls resync (rx_signals (new (encoder tr) (decoders tr))) g)
   \<and> rx_synchronizer (DRTIOSatellite new m tr ch (Some (Other c)) f w) = Other (snd (calls m (rx_signals (new (encoder tr) (decoders tr))) c))
   \<and> rx_signals (link_layer_sync (DRTIOSatellite new m tr ch (Some (Other c)) f w)) = fst (calls m (rx_signals (new (encoder tr) (decoders tr))) c)
   \<and> filter (\<lambda>c. snd c = RXSynchronizer) (submodules (DRTIOSatellite new m tr ch (Some s) f w)) = []"
proof -
  have n: "(rx_signals (link_layer_sync (DRTIOSatellite new m tr ch None f w)), rx_synchronizer (DRTIOSatellite new m tr ch None f w))
     = (fst (calls resync (rx_signals (new (encoder tr) (decoders tr))) GenericRXSynchronizer_init),
        Generic (snd (calls resync (rx_signals (new (encoder tr) (decoders tr))) GenericRXSynchronizer_init)))"
    unfolding DRTIOSatellite_sync_None by (simp add: map_prod_def split_def)
  have g: "(rx_signals (link_layer_sync (DRTIOSatellite new m tr ch (Some (Generic g)) f w)), rx_synchronizer (DRTIOSatellite new m tr ch (Some (Generic g)) f w))
     = (fst (calls resync (rx_signals (new (encoder tr) (decoders tr))) g), Generic (snd (calls resync (rx_signals (new (encoder tr) (decoders tr))) g)))"
    unfolding DRTIOSatellite_sync_Generic by (simp add: map_prod_def split_def)
  have o: "(rx_signals (link_layer_sync (DRTIOSatellite new m tr ch (Some (Other c)) f w)), rx_synchronizer (DRTIOSatellite new m tr ch (Some (Other c)) f w))
     = (fst (calls m (rx_signals (new (encoder tr) (decoders tr))) c), Other (snd (calls m (rx_signals (new (encoder tr) (decoders tr))) c)))"
    unfolding DRTIOSatellite_sync_Other by (simp add: map_prod_def split_def)
  have h: "hd (submodules (DRTIOSatellite new m tr ch None f w)) = (None, RXSynchronizer)"
    by (simp add: DRTIOSatellite_submodules)
  have l: "length (filter (\<lambda>c. snd c = RXSynchronizer) (submodules (DRTIOSatellite new m tr ch None f w))) = 1"
    by (simp add: DRTIOSatellite_submodules)
  have e: "filter (\<lambda>c. snd c = RXSynchronizer) (submodules (DRTIOSatellite new m tr ch (Some s) f w)) = []"
    by (simp add: DRTIOSatellite_submodules)
  have n1: "rx_signals (link_layer_sync (DRTIOSatellite new m tr ch None f w))
      = fst (calls resync (rx_signals (new (encoder tr) (decoders tr))) GenericRXSynchronizer_init)"
    and n2: "rx_synchronizer (DRTIOSatellite new m tr ch None f w)
      = Generic (snd (calls resync (rx_signals (new (encoder tr) (decoders tr))) GenericRXSynchronizer_init))"
    using n by simp_all
  have g1: "rx_signals (link_layer_sync (DRTIOSatellite new m tr ch (Some (Generic g)) f w))
      = fst (calls resync (rx_signals (new (encoder tr) (decoders tr))) g)"
    and g2: "rx_synchronizer (DRTIOSatellite new m tr ch (Some (Generic g)) f w)
      = Generic (snd (calls resync (rx_signals (new (encoder tr) (decoders tr))) g))"
    using g by simp_all
  have o1: "rx_signals (link_layer_sync (DRTIOSatellite new m tr ch (Some (Other c)) f w))
      = fst (calls m (rx_signals (new (encoder tr) (decoders tr))) c)"
    and o2: "rx_synchronizer (DRTIOSatellite new m tr ch (Some (Other c)) f w)
      = Other (snd (calls m (rx_signals (new (encoder tr) (decoders tr))) c))"
    using o by simp_all
  show ?thesis
    by (intro conjI) (rule n1 n2 g1 g2 o1 o2 h l e)+
qed


text \<open>
  Claim C6. With the width arguments left out, \<open>DRTIOSatellite\<close> passes
  \<open>fine_ts_width = 3\<close> and \<open>full_ts_width = 63\<close> to \<open>IOS\<close>, and \<open>DRTIOMaster\<close> passes
  \<open>fine_ts_width = 3\<close> to \<open>RTController\<close>; widths that are given are passed as they
  are.
\<close>

theorem default_timestamp_widths:
  "map_of (submodules (DRTIOSatellite new m tr ch rxs None None)) (Some ''ios'')
     = Some (IOS (ClockDomainsRenamer ''rtio''
          (RTPacketSatellite (link_layer_sync (DRTIOSatellite new m tr ch rxs None None))))
          ch 3 63)
   \<and> map_of (submodules (DRTIOSatellite new m tr ch rxs (Some a) (Some b))) (Some ''ios'')
     = Some (IOS (ClockDomainsRenamer ''rtio''
          (RTPacketSatellite (link_layer_sync (DRTIOSatellite new m tr ch rxs (Some a) (Some b)))))
          ch a b)
   \<and> map_of (submodules (DRTIOMaster new tr cc None)) (Some ''rt_controller'')
     = Some (RTController (RTPacketMaster (new (encoder tr) (decoders tr)))
          (case cc of None \<Rightarrow> 1024 | Some n \<Rightarrow> n) 3)
   \<and> map_of (submodules (DRTIOMaster new tr cc (Some a))) (Some ''rt_controller'')
     = Some (RTController (RTPacketMaster (new (encoder tr) (decoders tr)))
          (case cc of None \<Rightarrow> 1024 | Some n \<Rightarrow> n) a)"
  by (simp add: DRTIOSatellite_submodules DRTIOMaster_def Let_def split: option.splits)

text \<open>
  Claim C7. \<open>DRTIOSatellite\<close> creates exactly the clock domains \<open>rio\<close> and \<open>rio_phy\<close>;
  the clock of each is assigned from \<open>ClockSignal("rtio")\<close> and from nothing else, the
  reset of \<open>rio\<close> from \<open>rt_packet.reset\<close> only and the reset of \<open>rio_phy\<close> from
  \<open>rt_packet.reset_phy\<close> only, \<open>rt_packet\<close> being the RT packet engine.
\<close>

theorem DRTIOSatellite_rio_domains:
  "clock_domains (DRTIOSatellite new m tr ch rxs f w) = [''rio'', ''rio_phy'']
   \<and> drivers (Attr ''cd_rio'' ''clk'') (comb (DRTIOSatellite new m tr ch rxs f w))
       = [ClockSignal ''rtio'']
   \<and> drivers (Attr ''cd_rio_phy'' ''clk'') (comb (DRTIOSatellite new m tr ch rxs f w))
       = [ClockSignal ''rtio'']
   \<and> drivers (Attr ''cd_rio'' ''rst'') (comb (DRTIOSatellite new m tr ch rxs f w))
       = [Attr ''rt_packet'' ''reset'']
   \<and> drivers (Attr ''cd_rio_phy'' ''rst'') (comb (DRTIOSatellite new m tr ch rxs f w))
       = [Attr ''rt_packet'' ''reset_phy'']
   \<and> map_of (submodules (DRTIOSatellite new m tr ch rxs f w)) (Some ''rt_packet'')
       = Some (ClockDomainsRenamer ''rtio''
           (RTPacketSatellite (link_layer_sync (DRTIOSatellite new m tr ch rxs f w))))"
  by (simp add: DRTIOSatellite_clock_domains DRTIOSatellite_comb drivers_def
      DRTIOSatellite_submodules split: option.splits)

section \<open>Properties of the RT command stream\<close>

lemma rt_step_invariant:
  assumes "rt_step e s = Some s'" "e \<noteq> LinkDown"
    and "subseq (observed s @ in_flight s) (issued s)"
  shows "subseq (observed s' @ in_flight s') (issued s')"
proof (cases e)
  case (Issue c)
  then show ?thesis using assms
    by (auto simp: subseq_append' list_emb_append_mono simp flip: append_assoc)
next
  case Deliver
  then show ?thesis using assms by (auto split: list.splits)
next
  case Corrupt
  then have "\<exists>c. in_flight s = c # in_flight s' \<and> observed s' = observed s \<and> issued s' = issued s"
    using assms by (auto split: list.splits)
  then obtain c where c: "in_flight s = c # in_flight s'" "observed s' = observed s"
    "issued s' = issued s" by blast
  have "subseq (in_flight s') (c # in_flight s')"
    by (rule list_emb_Cons) simp
  then have "subseq (observed s @ in_flight s') (observed s @ c # in_flight s')"
    by (simp add: subseq_append')
  then show ?thesis using assms(3) c by (metis subseq_order.order_trans)
next
  case LinkDown
  then show ?thesis using assms by simp
qed

lemma rt_step_issued:
  "rt_step e s = Some s' \<Longrightarrow> issued s' = issued s @ issues [e]"
  by (cases e) (auto split: list.splits)

lemma rt_run_invariant:
  assumes "rt_run es s = Some s'" "LinkDown \<notin> set es"
    and "subseq (observed s @ in_flight s) (issued s)"
  shows "subseq (observed s' @ in_flight s') (issued s') \<and> issued s' = issued s @ issues es"
  using assms
proof (induction es arbitrary: s)
  case Nil
  then show ?case by simp
next
  case (Cons e es)
  from Cons.prems(1) obtain t where t: "rt_step e s = Some t" "rt_run es t = Some s'"
    by (auto split: option.splits)
  have ne: "e \<noteq> LinkDown" "LinkDown \<notin> set es" using Cons.prems(2) by auto
  have inv: "subseq (observed t @ in_flight t) (issued t)"
    using t(1) ne(1) Cons.prems(3) by (rule rt_step_invariant)
  have ih: "subseq (observed s' @ in_flight s') (issued s') \<and> issued s' = issued t @ issues es"
    using t(2) ne(2) inv by (rule Cons.IH)
  have a: "subseq (observed s' @ in_flight s') (issued s')" using ih by (rule conjunct1)
  have "issued t = issued s @ issues [e]" using t(1) by (rule rt_step_issued)
  moreover have "issues (e # es) = issues [e] @ issues es" by (cases e) simp_all
  ultimately have b: "issued s' = issued s @ issues (e # es)" using ih by simp
  show ?case by (intro conjI) (rule a, rule b)
qed

text \<open>
  Claim C5, on the model of the command stream. For every sequence of events without
  a loss of the link, started from the initial state, the commands issued are those of
  the \<open>Issue\<close> events in order, and the commands the satellite has observed are a
  subsequence of them: in the relative order the master issued them.
\<close>

theorem rt_commands_in_order:
  assumes "rt_run es rt_link_init = Some s" and "LinkDown \<notin> set es"
  shows "issued s = issues es \<and> subseq (observed s) (issued s)"
proof -
  have "subseq (observed rt_link_init @ in_flight rt_link_init) (issued rt_link_init)"
    by (simp add: rt_link_init_def)
  then have inv: "subseq (observed s @ in_flight s) (issued s) \<and> issued s = issued rt_link_init @ issues es"
    using assms rt_run_invariant by blast
  have a: "subseq (observed s @ in_flight s) (issued s)" using inv by (rule conjunct1)
  have "issued s = issued rt_link_init @ issues es" using inv by (rule conjunct2)
  then have b: "issued s = issues es" by (simp add: rt_link_init_def)
  have "subseq (observed s) (observed s @ in_flight s)"
    by (rule subseq_rev_drop_many) simp
  then have c: "subseq (observed s) (issued s)"
    using a by (rule subseq_order.order_trans)
  show ?thesis by (intro conjI) (rule b, rule c)
qed

theorem rt_commands_in_order_witness:
  "rt_run [Issue (Write 3 1000 171), Issue (Read 5), Deliver, Issue EchoRequest, Corrupt, Deliver]
      rt_link_init
     = Some \<lparr>issued = [Write 3 1000 171, Read 5, EchoRequest], in_flight = [],
             observed = [Write 3 1000 171, EchoRequest], corrupt_frames = 1\<rparr>
   \<and> LinkDown \<notin> set [Issue (Write 3 1000 171), Issue (Read 5), Deliver, Issue EchoRequest, Corrupt, Deliver]
   \<and> subseq [Write 3 1000 171, EchoRequest] [Write 3 1000 171, Read 5, EchoRequest]"
proof -
  let ?es = "[Issue (Write 3 1000 171), Issue (Read 5), Deliver, Issue EchoRequest, Corrupt, Deliver]"
  let ?s = "\<lparr>issued = [Write 3 1000 171, Read 5, EchoRequest], in_flight = [],
             observed = [Write 3 1000 171, EchoRequest], corrupt_frames = 1\<rparr>"
  have r: "rt_run ?es rt_link_init = Some ?s" by (simp add: rt_link_init_def)
  have n: "LinkDown \<notin> set ?es" by simp
  have "subseq (observed ?s) (issued ?s)"
    using rt_commands_in_order [OF r n] by blast
  then have "subseq [Write 3 1000 171, EchoRequest] [Write 3 1000 171, Read 5, EchoRequest]"
    by simp
  then show ?thesis using r n by blast
qed

end

